theory Spec2Isabelle
  imports Complex_Main
begin

section \<open>The visitor-info hook of the branding site template\<close>

text \<open>
  The development embeds the module \<^verbatim>\<open>@/hooks/useVisitorInfo\<close> (\<^verbatim>\<open>DEFAULT_OPTIONS\<close>,
  \<^verbatim>\<open>fetchGeoLocation\<close>, \<^verbatim>\<open>generateVisitorCount\<close>, \<^verbatim>\<open>useVisitorInfo\<close>; in the source tree
  it follows \<^verbatim>\<open>main.tsx\<close> in \<^verbatim>\<open>src/pages/Contact.tsx\<close>) and the two helpers it imports from
  \<^verbatim>\<open>@/utils/helpers\<close> (\<^verbatim>\<open>formatTime\<close>, \<^verbatim>\<open>randomInRange\<close>), with the types
  \<^verbatim>\<open>VisitorLocation\<close> and \<^verbatim>\<open>VisitorInfo\<close> of \<^verbatim>\<open>src/types/index.ts\<close>.

  The hook is event driven. One activation is a mount, followed by events delivered by
  the browser: the geolocation promise settles, the interval fires, the component
  unmounts. Each event handler runs to completion; React 18 batches the state updates
  of a handler and then commits them, re-running an effect whose dependencies changed.
  An exception is a value: every fallible function returns it explicitly.
\<close>

subsection \<open>The platform\<close>

datatype js_error = RangeError | TypeError

text \<open>
  What the browser supplies: the system time zone that
  \<^verbatim>\<open>Intl.DateTimeFormat().resolvedOptions().timeZone\<close> reports, its offset from UTC in
  seconds, and the time zone identifiers \<^verbatim>\<open>Intl.DateTimeFormat\<close> accepts, each with its
  offset from UTC in seconds (taken as constant during one activation). The system time
  zone is always accepted.
\<close>

record platform =
  systemTimeZone :: string
  systemOffset :: int
  ianaOffset :: "string \<Rightarrow> int option"

definition zoneOffset :: "platform \<Rightarrow> string \<Rightarrow> int option" where
  "zoneOffset P z = (if z = systemTimeZone P then Some (systemOffset P) else ianaOffset P z)"

text \<open>An instant is \<^verbatim>\<open>new Date()\<close>: milliseconds since the epoch. The wall clock of a
  zone is the number of seconds since its last midnight.\<close>

definition wallSeconds :: "int \<Rightarrow> nat \<Rightarrow> nat" where
  "wallSeconds off now = nat ((int (now div 1000) + off) mod 86400)"

definition digit :: "nat \<Rightarrow> char" where
  "digit d = ''0123456789'' ! d"

definition pad2 :: "nat \<Rightarrow> string" where
  "pad2 n = [digit (n div 10 mod 10), digit (n mod 10)]"

definition hourOf12 :: "nat \<Rightarrow> nat" where
  "hourOf12 h = (if h mod 12 = 0 then 12 else h mod 12)"

text \<open>
  Modelled from the spec: \<^verbatim>\<open>Intl.DateTimeFormat\<close> belongs to the browser, not to the
  repository. \<^verbatim>\<open>formatTime\<close> asks it for
  \<^verbatim>\<open>{hour: '2-digit', minute: '2-digit', second: '2-digit', hour12: true}\<close> in the
  default locale; the spec calls the result a formatted time-of-day string,
  hour:minute:second in the 12-hour convention. \<open>clock12\<close> is that string as an
  \<^verbatim>\<open>en-US\<close> browser renders it, from the seconds since midnight.
\<close>

definition clock12 :: "nat \<Rightarrow> string" where
  "clock12 s =
     pad2 (hourOf12 (s div 3600 mod 24)) @ '':'' @ pad2 (s div 60 mod 60) @ '':'' @
     pad2 (s mod 60) @ '' '' @ (if s div 3600 mod 24 < 12 then ''AM'' else ''PM'')"

text \<open>
  Modelled from the spec: constructing the formatter with a \<^verbatim>\<open>timeZone\<close> option the
  browser does not know throws \<^verbatim>\<open>RangeError\<close>; without the option the system time zone
  is used.
\<close>

definition DateTimeFormat_format :: "platform \<Rightarrow> string option \<Rightarrow> nat \<Rightarrow> js_error + string" where
  "DateTimeFormat_format P timeZone now =
     (case timeZone of
        None \<Rightarrow> Inr (clock12 (wallSeconds (systemOffset P) now))
      | Some z \<Rightarrow>
          (case zoneOffset P z of
             None \<Rightarrow> Inl RangeError
           | Some off \<Rightarrow> Inr (clock12 (wallSeconds off now))))"

text \<open>The syntax of a 12-hour time of day: \<^verbatim>\<open>hh:mm:ss AM\<close> or \<^verbatim>\<open>hh:mm:ss PM\<close> with
  the hour from 01 to 12 and minute and second below 60.\<close>

definition is_digit :: "char \<Rightarrow> bool" where
  "is_digit c = (48 \<le> (of_char c :: nat) \<and> (of_char c :: nat) \<le> 57)"

definition two_digits :: "char \<Rightarrow> char \<Rightarrow> nat" where
  "two_digits a b = 10 * ((of_char a :: nat) - 48) + ((of_char b :: nat) - 48)"

fun is_hms12 :: "string \<Rightarrow> bool" where
  "is_hms12 [h1, h2, c1, m1, m2, c2, s1, s2, sp, a, m] =
     (is_digit h1 \<and> is_digit h2 \<and> is_digit m1 \<and> is_digit m2 \<and> is_digit s1 \<and> is_digit s2 \<and>
      c1 = CHR '':'' \<and> c2 = CHR '':'' \<and> sp = CHR '' '' \<and>
      (a = CHR ''A'' \<or> a = CHR ''P'') \<and> m = CHR ''M'' \<and>
      1 \<le> two_digits h1 h2 \<and> two_digits h1 h2 \<le> 12 \<and>
      two_digits m1 m2 < 60 \<and> two_digits s1 s2 < 60)"
| "is_hms12 _ = False"

subsection \<open>The helpers: \<^verbatim>\<open>formatTime\<close> and \<^verbatim>\<open>randomInRange\<close>\<close>

text \<open>
  \<^verbatim>\<open>formatTime(timezone?, format = {...})\<close> spreads \<^verbatim>\<open>timezone && {timeZone: timezone}\<close>
  over the format: an absent or empty \<open>timezone\<close> adds nothing. The hook never passes
  \<open>format\<close>. \<open>now\<close> is the \<^verbatim>\<open>new Date()\<close> of the call.
\<close>

definition formatTime :: "platform \<Rightarrow> string option \<Rightarrow> nat \<Rightarrow> js_error + string" where
  "formatTime P timezone now =
     (let timeZone = (case timezone of
                        None \<Rightarrow> None
                      | Some z \<Rightarrow> if z = [] then None else Some z)
      in DateTimeFormat_format P timeZone now)"

text \<open>
  \<^verbatim>\<open>Math.random()\<close> returns an IEEE double \<open>r\<close> with \<open>0 \<le> r < 1\<close>. Every such double is
  \<open>m / 2 ^ s\<close> with an integer \<open>0 \<le> m < 2 ^ 53\<close> and \<open>53 \<le> s \<le> 1074\<close>, and every such
  quotient is one. The draw is a parameter of the model.
\<close>

record draw =
  drawMantissa :: int
  drawScale :: nat

definition is_draw :: "draw \<Rightarrow> bool" where
  "is_draw r = (0 \<le> drawMantissa r \<and> drawMantissa r < 2 ^ 53 \<and>
                53 \<le> drawScale r \<and> drawScale r \<le> 1074)"

definition drawValue :: "draw \<Rightarrow> real" where
  "drawValue r = real_of_int (drawMantissa r) / 2 ^ drawScale r"

text \<open>
  The product of doubles is the exact product rounded to 53 significant bits, ties to
  even. For an integer \<open>n \<ge> 0\<close>, \<open>dropBits n\<close> is the number of low bits that do not fit
  (\<open>0\<close> below \<open>2 ^ 53\<close>), \<open>roundToEven d n\<close> rounds \<open>n\<close> to a multiple of \<open>2 ^ d\<close>, and
  \<open>round53 n\<close> is \<open>n\<close> rounded to 53 significant bits. \<open>times_double c m\<close> is the
  mantissa, at the scale of the draw, of the double product of the integer \<open>c\<close> and the
  draw with mantissa \<open>m\<close>: the product stays a multiple of \<open>2 ^ - 1074\<close> and neither
  overflows nor loses bits to underflow.
\<close>

function dropBits :: "int \<Rightarrow> nat" where
  "dropBits n = (if n < 2 ^ 53 then 0 else Suc (dropBits (n div 2)))"
  by pat_completeness auto
termination
  by (relation "measure nat") auto

declare dropBits.simps [simp del]

definition roundToEven :: "nat \<Rightarrow> int \<Rightarrow> int" where
  "roundToEven d n =
     (let q = n div 2 ^ d; rest = n mod 2 ^ d
      in if 2 ^ d < 2 * rest \<or> (2 * rest = 2 ^ d \<and> odd q) then (q + 1) * 2 ^ d else q * 2 ^ d)"

definition round53 :: "int \<Rightarrow> int" where
  "round53 n = roundToEven (dropBits n) n"

definition times_double :: "int \<Rightarrow> int \<Rightarrow> int" where
  "times_double c m = sgn (c * m) * round53 \<bar>c * m\<bar>"

text \<open>
  \<^verbatim>\<open>Math.floor(Math.random() * (max - min + 1)) + min\<close>. The bounds are integers small
  enough (below \<open>2 ^ 52\<close> in magnitude) for the subtraction and the two additions to be
  exact in doubles; the multiplication rounds; \<^verbatim>\<open>Math.floor\<close> of \<open>x / 2 ^ s\<close> is the
  integer quotient, which rounds down.
\<close>

definition randomInRange :: "int \<Rightarrow> int \<Rightarrow> draw \<Rightarrow> int" where
  "randomInRange min_v max_v r =
     times_double (max_v - min_v + 1) (drawMantissa r) div 2 ^ drawScale r + min_v"

subsection \<open>Types of the hook\<close>

record VisitorLocation =
  city :: string
  country :: string
  countryCode :: string
  region :: string
  timezone :: string

record VisitorInfo =
  visitorCount :: int
  location :: "VisitorLocation option"
  currentTime :: string
  isLoading :: bool
  error :: "string option"

text \<open>A property of an options object is missing, present with the value
  \<^verbatim>\<open>undefined\<close>, or present with a value.\<close>

datatype 'a property = Missing | Undefined | Val 'a

record UseVisitorInfoOptions =
  autoUpdateTime :: "bool property"
  timeUpdateInterval :: "nat property"
  fetchLocation :: "bool property"

definition DEFAULT_OPTIONS :: UseVisitorInfoOptions where
  "DEFAULT_OPTIONS = \<lparr>autoUpdateTime = Val True, timeUpdateInterval = Val 1000,
                      fetchLocation = Val True\<rparr>"

text \<open>Object spread: every own property of the second object, also one whose value is
  \<^verbatim>\<open>undefined\<close>, replaces the property of the first.\<close>

definition spread :: "'a property \<Rightarrow> 'a property \<Rightarrow> 'a property" where
  "spread d p = (case p of Missing \<Rightarrow> d | Undefined \<Rightarrow> Undefined | Val v \<Rightarrow> Val v)"

definition mergeConfig :: "UseVisitorInfoOptions \<Rightarrow> UseVisitorInfoOptions" where
  "mergeConfig options =
     \<lparr>autoUpdateTime = spread (autoUpdateTime DEFAULT_OPTIONS) (autoUpdateTime options),
      timeUpdateInterval = spread (timeUpdateInterval DEFAULT_OPTIONS) (timeUpdateInterval options),
      fetchLocation = spread (fetchLocation DEFAULT_OPTIONS) (fetchLocation options)\<rparr>"

definition truthy :: "bool property \<Rightarrow> bool" where
  "truthy p = (p = Val True)"

text \<open>The delay \<^verbatim>\<open>setInterval\<close> registers: a missing or undefined delay is 0.\<close>

definition intervalDelay :: "nat property \<Rightarrow> nat" where
  "intervalDelay p = (case p of Val n \<Rightarrow> n | _ \<Rightarrow> 0)"

subsection \<open>The lookup\<close>

text \<open>
  How the request to \<^verbatim>\<open>https://ipapi.co/json/\<close> ends: \<^verbatim>\<open>fetch\<close> rejects, or it
  resolves with a status and a body. The body is not JSON (\<^verbatim>\<open>response.json()\<close>
  rejects), the JSON value \<^verbatim>\<open>null\<close>, or a JSON object, a dictionary. In the model of
  the hook the five keys it reads hold strings, as \<open>VisitorLocation\<close> declares its
  fields, or are absent; a body that is a number, a string, a boolean or an array has
  none of the keys and behaves as the empty object. \<open>fetchGeoLocation_json\<close> below is the
  function on arbitrary JSON values.
\<close>

datatype json_body = NotJson | JsonNull | JsonObject "string \<rightharpoonup> string"

datatype fetch_result = NetworkFailure | HttpResponse nat json_body

definition response_ok :: "nat \<Rightarrow> bool" where
  "response_ok status = (200 \<le> status \<and> status \<le> 299)"

text \<open>\<^verbatim>\<open>data.key || fallback\<close>: a missing property and the empty string are falsy.\<close>

definition or_else :: "string option \<Rightarrow> string \<Rightarrow> string" where
  "or_else v fallback = (case v of None \<Rightarrow> fallback | Some s \<Rightarrow> if s = [] then fallback else s)"

text \<open>
  \<^verbatim>\<open>fetchGeoLocation\<close>: every failure inside the \<^verbatim>\<open>try\<close> (the rejected fetch, the
  thrown "Geolocation API error", the rejected \<^verbatim>\<open>response.json()\<close>, the
  \<^verbatim>\<open>TypeError\<close> of reading a property of \<^verbatim>\<open>null\<close>) is caught, logged with
  \<^verbatim>\<open>console.warn\<close>, and turned into \<^verbatim>\<open>null\<close>.
\<close>

definition fetchGeoLocation :: "platform \<Rightarrow> fetch_result \<Rightarrow> VisitorLocation option" where
  "fetchGeoLocation P res =
     (case res of
        NetworkFailure \<Rightarrow> None
      | HttpResponse status body \<Rightarrow>
          if \<not> response_ok status then None
          else (case body of
                  NotJson \<Rightarrow> None
                | JsonNull \<Rightarrow> None
                | JsonObject data \<Rightarrow>
                    Some \<lparr>city = or_else (data ''city'') ''Unknown'',
                          country = or_else (data ''country_name'') ''Unknown'',
                          countryCode = or_else (data ''country_code'') ''XX'',
                          region = or_else (data ''region'') '''',
                          timezone = or_else (data ''timezone'') (systemTimeZone P)\<rparr>))"

text \<open>
  The same function on what \<^verbatim>\<open>response.json()\<close> can really produce. \<open>data\<close> is untyped:
  any JSON value. A number is given by the value of the double the parser produced.
  \<^verbatim>\<open>data.key\<close> on \<^verbatim>\<open>null\<close> throws \<^verbatim>\<open>TypeError\<close>, which the \<^verbatim>\<open>catch\<close> turns into
  \<^verbatim>\<open>null\<close>; on an object it is the member written last under the key
  (\<^verbatim>\<open>JSON.parse\<close> keeps the last duplicate) or \<^verbatim>\<open>undefined\<close>; a boolean, a number, a
  string and an array have none of the five keys. \<^verbatim>\<open>a || b\<close> is \<open>a\<close> when \<open>a\<close> is truthy
  and \<open>b\<close> otherwise; \<^verbatim>\<open>undefined\<close>, \<^verbatim>\<open>null\<close>, \<^verbatim>\<open>false\<close>, zero and the empty string are
  falsy. The object returned holds whatever values result, strings or not.
\<close>

datatype json =
  JNull | JBool bool | JNumber real | JString string
  | JArray "json list" | JObject "(string \<times> json) list"

fun getProperty :: "json \<Rightarrow> string \<Rightarrow> json option" where
  "getProperty (JObject members) key = map_of (rev members) key"
| "getProperty _ key = None"

fun json_truthy :: "json \<Rightarrow> bool" where
  "json_truthy JNull = False"
| "json_truthy (JBool b) = b"
| "json_truthy (JNumber x) = (x \<noteq> 0)"
| "json_truthy (JString s) = (s \<noteq> [])"
| "json_truthy (JArray xs) = True"
| "json_truthy (JObject members) = True"

definition json_or :: "json option \<Rightarrow> json \<Rightarrow> json" where
  "json_or v fallback = (case v of None \<Rightarrow> fallback | Some x \<Rightarrow> if json_truthy x then x else fallback)"

record LocationObject =
  cityValue :: json
  countryValue :: json
  countryCodeValue :: json
  regionValue :: json
  timezoneValue :: json

text \<open>The request is rejected, or answered with a status and a body that is not JSON
  (\<open>None\<close>) or a JSON value.\<close>

datatype lookup = Rejected | Answered nat "json option"

definition fetchGeoLocation_json :: "platform \<Rightarrow> lookup \<Rightarrow> LocationObject option" where
  "fetchGeoLocation_json P res =
     (case res of
        Rejected \<Rightarrow> None
      | Answered status body \<Rightarrow>
          if \<not> response_ok status then None
          else (case body of
                  None \<Rightarrow> None
                | Some JNull \<Rightarrow> None
                | Some data \<Rightarrow>
                    Some \<lparr>cityValue = json_or (getProperty data ''city'') (JString ''Unknown''),
                          countryValue = json_or (getProperty data ''country_name'') (JString ''Unknown''),
                          countryCodeValue = json_or (getProperty data ''country_code'') (JString ''XX''),
                          regionValue = json_or (getProperty data ''region'') (JString ''''),
                          timezoneValue = json_or (getProperty data ''timezone'')
                                            (JString (systemTimeZone P))\<rparr>))"

definition generateVisitorCount :: "draw \<Rightarrow> int" where
  "generateVisitorCount r =
     (let baseCount = 1247; variation = randomInRange 0 50 r in baseCount + variation)"

subsection \<open>The hook\<close>

text \<open>
  One activation of \<^verbatim>\<open>useVisitorInfo\<close>: the five \<^verbatim>\<open>useState\<close> cells (\<open>info\<close>, which
  the hook returns), the \<open>isMounted\<close> variable of the geolocation effect (absent when
  the effect returned early), whether the lookup is in flight, and the interval the
  timer effect registered, with its delay and the \<^verbatim>\<open>location?.timezone\<close> its closure
  captured.
\<close>

record interval =
  delay :: nat
  tz :: "string option"

record hook =
  info :: VisitorInfo
  isMounted :: "bool option"
  inFlight :: bool
  timer :: "interval option"

definition setLocation :: "VisitorLocation option \<Rightarrow> hook \<Rightarrow> hook" where
  "setLocation l h = h\<lparr>info := (info h)\<lparr>location := l\<rparr>\<rparr>"

definition setCurrentTime :: "string \<Rightarrow> hook \<Rightarrow> hook" where
  "setCurrentTime s h = h\<lparr>info := (info h)\<lparr>currentTime := s\<rparr>\<rparr>"

definition setIsLoading :: "bool \<Rightarrow> hook \<Rightarrow> hook" where
  "setIsLoading b h = h\<lparr>info := (info h)\<lparr>isLoading := b\<rparr>\<rparr>"

definition setError :: "string option \<Rightarrow> hook \<Rightarrow> hook" where
  "setError e h = h\<lparr>info := (info h)\<lparr>error := e\<rparr>\<rparr>"

text \<open>\<^verbatim>\<open>updateTime(timezone?)\<close> is \<^verbatim>\<open>setCurrentTime(formatTime(timezone))\<close>; when
  \<open>formatTime\<close> throws, the state is as it was and the exception goes on.\<close>

definition updateTime :: "platform \<Rightarrow> string option \<Rightarrow> nat \<Rightarrow> hook \<Rightarrow> hook \<times> js_error option" where
  "updateTime P zone now h =
     (case formatTime P zone now of
        Inl e \<Rightarrow> (h, Some e)
      | Inr s \<Rightarrow> (setCurrentTime s h, None))"

text \<open>\<^verbatim>\<open>location?.timezone\<close>, the dependency of the timer effect.\<close>

definition locationTimezone :: "hook \<Rightarrow> string option" where
  "locationTimezone h = map_option timezone (location (info h))"

text \<open>
  The continuation of \<^verbatim>\<open>fetchData\<close> after \<^verbatim>\<open>await fetchGeoLocation()\<close>: the
  \<^verbatim>\<open>try\<close> block, the \<^verbatim>\<open>catch\<close> block, the \<^verbatim>\<open>finally\<close> block. The second
  component is the exception a block leaves behind.
\<close>

definition fetchData_try :: "platform \<Rightarrow> VisitorLocation option \<Rightarrow> nat \<Rightarrow> hook \<Rightarrow> hook \<times> js_error option" where
  "fetchData_try P locationData now h =
     (if isMounted h = Some True then
        (case (case locationData of
                 Some l \<Rightarrow> updateTime P (Some (timezone l)) now (setLocation (Some l) h)
               | None \<Rightarrow> updateTime P None now h) of
           (h1, Some e) \<Rightarrow> (h1, Some e)
         | (h1, None) \<Rightarrow> (setError None h1, None))
      else (h, None))"

definition fetchData_catch :: "platform \<Rightarrow> nat \<Rightarrow> hook \<Rightarrow> hook \<times> js_error option" where
  "fetchData_catch P now h =
     (if isMounted h = Some True then
        updateTime P None now (setError (Some ''Failed to load location data'') h)
      else (h, None))"

definition fetchData_finally :: "hook \<Rightarrow> hook" where
  "fetchData_finally h = (if isMounted h = Some True then setIsLoading False h else h)"

definition fetchData :: "platform \<Rightarrow> fetch_result \<Rightarrow> nat \<Rightarrow> hook \<Rightarrow> hook \<times> js_error option" where
  "fetchData P res now h =
     (let locationData = fetchGeoLocation P res in
      case fetchData_try P locationData now h of
        (h1, None) \<Rightarrow> (fetchData_finally h1, None)
      | (h1, Some e) \<Rightarrow>
          (case fetchData_catch P now h1 of
             (h2, rejected) \<Rightarrow> (fetchData_finally h2, rejected)))"

text \<open>
  The geolocation effect, run once after the first render: with \<open>fetchLocation\<close> falsy
  it sets \<open>isLoading\<close> and returns; otherwise it creates \<open>isMounted\<close> and calls
  \<open>fetchData\<close>, which issues the request.
\<close>

definition geolocationEffect :: "UseVisitorInfoOptions \<Rightarrow> hook \<Rightarrow> hook" where
  "geolocationEffect config h =
     (if \<not> truthy (fetchLocation config) then setIsLoading False h
      else h\<lparr>isMounted := Some True, inFlight := True\<rparr>)"

text \<open>
  The timer effect: with \<open>autoUpdateTime\<close> falsy it returns; otherwise it updates the
  time at once, outside any \<^verbatim>\<open>try\<close>, and registers the interval. An exception of
  \<open>updateTime\<close> leaves the effect.
\<close>

definition timerEffect :: "platform \<Rightarrow> UseVisitorInfoOptions \<Rightarrow> nat \<Rightarrow> hook \<Rightarrow> js_error + hook" where
  "timerEffect P config now h =
     (if \<not> truthy (autoUpdateTime config) then Inr h
      else (case updateTime P (locationTimezone h) now h of
              (h1, Some e) \<Rightarrow> Inl e
            | (h1, None) \<Rightarrow>
                Inr (h1\<lparr>timer := Some \<lparr>delay = intervalDelay (timeUpdateInterval config),
                                         tz = locationTimezone h\<rparr>\<rparr>)))"

text \<open>The cleanup of the timer effect is \<^verbatim>\<open>clearInterval(intervalId)\<close>.\<close>

definition timerCleanup :: "hook \<Rightarrow> hook" where
  "timerCleanup h = h\<lparr>timer := None\<rparr>"

text \<open>The cleanup of the geolocation effect is \<^verbatim>\<open>isMounted = false\<close>; after an early
  return there is no cleanup.\<close>

definition geolocationCleanup :: "hook \<Rightarrow> hook" where
  "geolocationCleanup h = h\<lparr>isMounted := map_option (\<lambda>_. False) (isMounted h)\<rparr>"

text \<open>
  The commit after a handler: of the dependencies of the two effects only
  \<^verbatim>\<open>location?.timezone\<close> can change during one activation. When it differs from
  that of the last render (\<open>rendered\<close>), React runs the cleanup of the timer effect and
  then the effect again.
\<close>

definition commit :: "platform \<Rightarrow> UseVisitorInfoOptions \<Rightarrow> nat \<Rightarrow> hook \<Rightarrow> hook \<Rightarrow> js_error + hook" where
  "commit P config now rendered h =
     (if locationTimezone rendered = locationTimezone h then Inr h
      else timerEffect P config now (timerCleanup h))"

text \<open>The first render and its effects. \<open>r\<close> is the draw of \<^verbatim>\<open>Math.random()\<close> in the
  initialiser of \<open>visitorCount\<close>.\<close>

definition mount :: "platform \<Rightarrow> UseVisitorInfoOptions \<Rightarrow> draw \<Rightarrow> nat \<Rightarrow> js_error + hook" where
  "mount P options r now =
     (let config = mergeConfig options;
          h = \<lparr>info = \<lparr>visitorCount = generateVisitorCount r, location = None,
                       currentTime = [], isLoading = True, error = None\<rparr>,
               isMounted = None, inFlight = False, timer = None\<rparr>
      in timerEffect P config now (geolocationEffect config h))"

text \<open>
  The events of one activation, each with the instant at which it is handled: the lookup
  settles, the interval fires, the component unmounts. The lookup settles once; an
  interval that was cleared does not fire.
\<close>

datatype event = Settled fetch_result nat | Tick nat | Unmount

definition unmount :: "hook \<Rightarrow> hook" where
  "unmount h = timerCleanup (geolocationCleanup h)"

fun step :: "platform \<Rightarrow> UseVisitorInfoOptions \<Rightarrow> hook \<Rightarrow> event \<Rightarrow> js_error + hook" where
  "step P options h (Settled res now) =
     (if inFlight h then
        commit P (mergeConfig options) now h (fst (fetchData P res now (h\<lparr>inFlight := False\<rparr>)))
      else Inr h)"
| "step P options h (Tick now) =
     (case timer h of
        None \<Rightarrow> Inr h
      | Some iv \<Rightarrow>
          (case updateTime P (tz iv) now h of
             (h1, Some e) \<Rightarrow> Inl e
           | (h1, None) \<Rightarrow> Inr h1))"
| "step P options h Unmount = Inr (unmount h)"

fun run :: "platform \<Rightarrow> UseVisitorInfoOptions \<Rightarrow> hook \<Rightarrow> event list \<Rightarrow> js_error + hook" where
  "run P options h [] = Inr h"
| "run P options h (ev # evs) =
     (case step P options h ev of
        Inl e \<Rightarrow> Inl e
      | Inr h1 \<Rightarrow> run P options h1 evs)"

subsection \<open>Notions used in the properties\<close>

text \<open>The argument of \<open>formatTime\<close> is accepted when no \<^verbatim>\<open>timeZone\<close> option results
  from it or the browser knows the zone; \<open>zoneClock\<close> is the string it then returns, and
  \<open>localClock\<close> the string for the system time zone.\<close>

definition zoneAccepted :: "platform \<Rightarrow> string option \<Rightarrow> bool" where
  "zoneAccepted P zone = (case zone of None \<Rightarrow> True | Some z \<Rightarrow> z = [] \<or> zoneOffset P z \<noteq> None)"

definition zoneClock :: "platform \<Rightarrow> string option \<Rightarrow> nat \<Rightarrow> string" where
  "zoneClock P zone now =
     (case zone of
        None \<Rightarrow> clock12 (wallSeconds (systemOffset P) now)
      | Some z \<Rightarrow>
          if z = [] then clock12 (wallSeconds (systemOffset P) now)
          else (case zoneOffset P z of
                  None \<Rightarrow> []
                | Some off \<Rightarrow> clock12 (wallSeconds off now)))"

definition localClock :: "platform \<Rightarrow> nat \<Rightarrow> string" where
  "localClock P now = clock12 (wallSeconds (systemOffset P) now)"

text \<open>A registered interval has the configured delay and captured the time zone of the
  current location, which the browser accepted when the effect ran.\<close>

definition timer_ok :: "platform \<Rightarrow> UseVisitorInfoOptions \<Rightarrow> hook \<Rightarrow> bool" where
  "timer_ok P options h =
     (case timer h of
        None \<Rightarrow> True
      | Some iv \<Rightarrow>
          iv = \<lparr>delay = intervalDelay (timeUpdateInterval (mergeConfig options)),
                tz = locationTimezone h\<rparr> \<and>
          zoneAccepted P (locationTimezone h))"

text \<open>While the lookup is in flight nothing has been stored yet.\<close>

definition awaiting_ok :: "hook \<Rightarrow> bool" where
  "awaiting_ok h =
     (\<not> inFlight h \<or>
      (location (info h) = None \<and> error (info h) = None \<and> isLoading (info h)))"

text \<open>Once loading is over a time is shown.\<close>

definition shown_ok :: "hook \<Rightarrow> bool" where
  "shown_ok h = (isLoading (info h) \<or> is_hms12 (currentTime (info h)))"

text \<open>The instants at which the events of a run are handled.\<close>

fun instants :: "event list \<Rightarrow> nat list" where
  "instants [] = []"
| "instants (Settled res now # evs) = now # instants evs"
| "instants (Tick now # evs) = now # instants evs"
| "instants (Unmount # evs) = instants evs"

text \<open>What \<open>fetchData\<close> leaves behind when the lookup produced the location \<open>l\<close>
  while the component is mounted.\<close>

definition stored :: "platform \<Rightarrow> VisitorLocation \<Rightarrow> nat \<Rightarrow> hook \<Rightarrow> hook" where
  "stored P l now h =
     (if zoneAccepted P (Some (timezone l)) then
        setIsLoading False (setError None (setCurrentTime (zoneClock P (Some (timezone l)) now)
          (setLocation (Some l) (h\<lparr>inFlight := False\<rparr>))))
      else
        setIsLoading False (setCurrentTime (localClock P now)
          (setError (Some ''Failed to load location data'')
             (setLocation (Some l) (h\<lparr>inFlight := False\<rparr>)))))"

text \<open>The failures of the lookup: the request is rejected, the status is not a success,
  the body does not parse.\<close>

fun lookupFailed :: "fetch_result \<Rightarrow> bool" where
  "lookupFailed NetworkFailure = True"
| "lookupFailed (HttpResponse status body) = (\<not> response_ok status \<or> body = NotJson)"

text \<open>
  \<open>fetchGeoLocation\<close> is \<open>fetchGeoLocation_json\<close> on the responses whose five fields are
  strings or absent: \<open>stringFields\<close> reads such a JSON value as a dictionary of strings,
  \<open>locationObject\<close> is a \<open>VisitorLocation\<close> as the object of its strings.
\<close>

definition stringFields :: "json \<Rightarrow> string \<rightharpoonup> string" where
  "stringFields data key = (case getProperty data key of Some (JString s) \<Rightarrow> Some s | _ \<Rightarrow> None)"

definition stringOrAbsent :: "json \<Rightarrow> string \<Rightarrow> bool" where
  "stringOrAbsent data key =
     (case getProperty data key of None \<Rightarrow> True | Some (JString s) \<Rightarrow> True | Some _ \<Rightarrow> False)"

definition locationObject :: "VisitorLocation \<Rightarrow> LocationObject" where
  "locationObject l = \<lparr>cityValue = JString (city l), countryValue = JString (country l),
                        countryCodeValue = JString (countryCode l), regionValue = JString (region l),
                        timezoneValue = JString (timezone l)\<rparr>"

text \<open>The produced field is the field of the response when that is present and is not
  \<^verbatim>\<open>null\<close>, \<^verbatim>\<open>false\<close>, zero or the empty string, and the fallback otherwise.\<close>

definition field_or :: "json option \<Rightarrow> json \<Rightarrow> json \<Rightarrow> bool" where
  "field_or v fallback produced =
     (case v of
        None \<Rightarrow> produced = fallback
      | Some x \<Rightarrow>
          if x = JNull \<or> x = JBool False \<or> x = JNumber 0 \<or> x = JString [] then produced = fallback
          else produced = x)"

subsection \<open>Examples\<close>

text \<open>A browser: system zone Asia/Singapore, and two more zones.\<close>

definition demoPlatform :: platform where
  "demoPlatform = \<lparr>systemTimeZone = ''Asia/Singapore'', systemOffset = 28800,
                    ianaOffset = map_of [(''Europe/Paris'', 3600), (''UTC'', 0)]\<rparr>"

text \<open>Draws of \<^verbatim>\<open>Math.random()\<close>: the double \<open>1/2\<close>, and a double whose exact product
  with 51 lies \<open>2 ^ - 53\<close> below 8 and rounds to 8.\<close>

definition demoDraw :: draw where
  "demoDraw = \<lparr>drawMantissa = 4503599627370496, drawScale = 53\<rparr>"

definition roundingDraw :: draw where
  "roundingDraw = \<lparr>drawMantissa = 1412894000743685, drawScale = 53\<rparr>"

text \<open>Options objects: the empty object; both switches present but undefined; the
  lookup switched off; the lookup and the timer both switched off.\<close>

definition noOptions :: UseVisitorInfoOptions where
  "noOptions = \<lparr>autoUpdateTime = Missing, timeUpdateInterval = Missing, fetchLocation = Missing\<rparr>"

definition undefinedOptions :: UseVisitorInfoOptions where
  "undefinedOptions = \<lparr>autoUpdateTime = Undefined, timeUpdateInterval = Missing,
                         fetchLocation = Undefined\<rparr>"

definition noLookupOptions :: UseVisitorInfoOptions where
  "noLookupOptions = \<lparr>autoUpdateTime = Missing, timeUpdateInterval = Missing,
                        fetchLocation = Val False\<rparr>"

definition bothOffOptions :: UseVisitorInfoOptions where
  "bothOffOptions = \<lparr>autoUpdateTime = Val False, timeUpdateInterval = Missing,
                       fetchLocation = Val False\<rparr>"

text \<open>Responses: the one of the Paris scenario with the location it describes, and an
  object whose time zone no browser knows.\<close>

definition parisResponse :: "string \<rightharpoonup> string" where
  "parisResponse = [''city'' \<mapsto> ''Paris'', ''country_name'' \<mapsto> ''France'',
                    ''country_code'' \<mapsto> ''FR'', ''region'' \<mapsto> ''IDF'',
                    ''timezone'' \<mapsto> ''Europe/Paris'']"

definition parisLocation :: VisitorLocation where
  "parisLocation = \<lparr>city = ''Paris'', country = ''France'', countryCode = ''FR'',
                     region = ''IDF'', timezone = ''Europe/Paris''\<rparr>"

definition marsResponse :: "string \<rightharpoonup> string" where
  "marsResponse = [''city'' \<mapsto> ''Phobos'', ''timezone'' \<mapsto> ''Mars/Phobos'']"

text \<open>A response with an empty \<open>city\<close>, the number 0 as \<open>country_code\<close>, and neither
  \<open>region\<close> nor \<open>timezone\<close>; and the object made from it in the example browser.\<close>

definition sparseResponse :: json where
  "sparseResponse = JObject [(''city'', JString ''''), (''country_code'', JNumber 0),
                             (''country_name'', JString ''France'')]"

definition sparseLocation :: LocationObject where
  "sparseLocation = \<lparr>cityValue = JString ''Unknown'', countryValue = JString ''France'',
                        countryCodeValue = JString ''XX'', regionValue = JString '''',
                        timezoneValue = JString ''Asia/Singapore''\<rparr>"

text \<open>Hooks in the example browser, mounted with the draw \<open>demoDraw\<close> at the instant 0: with
  the empty options object right after the mount, after a network failure at 5000, and
  after the Paris response at 5000 and a tick at 6000; with the lookup switched off; with
  the lookup and the timer switched off.\<close>

definition demoHook :: hook where
  "demoHook = \<lparr>info = \<lparr>visitorCount = 1272, location = None, currentTime = ''08:00:00 AM'',
                          isLoading = True, error = None\<rparr>,
                 isMounted = Some True, inFlight = True,
                 timer = Some \<lparr>delay = 1000, tz = None\<rparr>\<rparr>"

definition demoFailedHook :: hook where
  "demoFailedHook = \<lparr>info = \<lparr>visitorCount = 1272, location = None,
                                currentTime = ''08:00:05 AM'', isLoading = False, error = None\<rparr>,
                       isMounted = Some True, inFlight = False,
                       timer = Some \<lparr>delay = 1000, tz = None\<rparr>\<rparr>"

definition demoParisHook :: hook where
  "demoParisHook = \<lparr>info = \<lparr>visitorCount = 1272, location = Some parisLocation,
                               currentTime = ''01:00:06 AM'', isLoading = False, error = None\<rparr>,
                      isMounted = Some True, inFlight = False,
                      timer = Some \<lparr>delay = 1000, tz = Some ''Europe/Paris''\<rparr>\<rparr>"

definition noLookupHook :: hook where
  "noLookupHook = \<lparr>info = \<lparr>visitorCount = 1272, location = None, currentTime = ''08:00:00 AM'',
                              isLoading = False, error = None\<rparr>,
                     isMounted = None, inFlight = False,
                     timer = Some \<lparr>delay = 1000, tz = None\<rparr>\<rparr>"

definition bothOffHook :: hook where
  "bothOffHook = \<lparr>info = \<lparr>visitorCount = 1272, location = None, currentTime = [],
                             isLoading = False, error = None\<rparr>,
                    isMounted = None, inFlight = False, timer = None\<rparr>"

section \<open>Properties\<close>

subsection \<open>The formatted time\<close>

lemma digit_chars:
  "digit 0 = CHR ''0''" "digit 1 = CHR ''1''" "digit 2 = CHR ''2''" "digit 3 = CHR ''3''"
  "digit 4 = CHR ''4''" "digit 5 = CHR ''5''" "digit 6 = CHR ''6''" "digit 7 = CHR ''7''"
  "digit 8 = CHR ''8''" "digit 9 = CHR ''9''" "digit (Suc 0) = CHR ''1''"
  by (simp_all add: digit_def)

lemma of_char_digit:
  assumes "d < 10"
  shows "(of_char (digit d) :: nat) = 48 + d"
proof -
  from assms have "d = 0 \<or> d = 1 \<or> d = 2 \<or> d = 3 \<or> d = 4 \<or> d = 5 \<or> d = 6 \<or>
      d = 7 \<or> d = 8 \<or> d = 9"
    by arith
  then show ?thesis
    by (elim disjE) (simp_all add: digit_chars)
qed

lemma pad2_shape:
  assumes "n < 100"
  shows "\<exists>a b. pad2 n = [a, b] \<and> is_digit a \<and> is_digit b \<and> two_digits a b = n"
proof -
  have hi: "n div 10 mod 10 < 10" and lo: "n mod 10 < 10" by simp_all
  have "n div 10 < 10" using assms by simp
  then have val: "10 * (n div 10 mod 10) + n mod 10 = n" by simp
  have "is_digit (digit (n div 10 mod 10))" "is_digit (digit (n mod 10))"
    using hi lo by (simp_all add: is_digit_def of_char_digit del: mod_less_divisor)
  moreover have "two_digits (digit (n div 10 mod 10)) (digit (n mod 10)) = n"
    using val by (simp only: two_digits_def of_char_digit [OF hi] of_char_digit [OF lo])
  ultimately show ?thesis by (simp add: pad2_def)
qed

lemma hourOf12_range: "1 \<le> hourOf12 h \<and> hourOf12 h \<le> 12"
proof -
  have "h mod 12 < 12" by simp
  then show ?thesis unfolding hourOf12_def by (auto simp del: mod_less_divisor)
qed

lemma is_hms12_clock12: "is_hms12 (clock12 s)"
proof -
  let ?h = "hourOf12 (s div 3600 mod 24)"
  have h: "1 \<le> ?h" "?h \<le> 12"
    using hourOf12_range by blast+
  have m: "s div 60 mod 60 < 60" and sec: "s mod 60 < 60" by simp_all
  obtain h1 h2 where H: "pad2 ?h = [h1, h2]" "is_digit h1" "is_digit h2" "two_digits h1 h2 = ?h"
    using pad2_shape [of ?h] h by auto
  obtain m1 m2 where M: "pad2 (s div 60 mod 60) = [m1, m2]" "is_digit m1" "is_digit m2"
      "two_digits m1 m2 = s div 60 mod 60"
    using pad2_shape [of "s div 60 mod 60"] m by auto
  obtain s1 s2 where S: "pad2 (s mod 60) = [s1, s2]" "is_digit s1" "is_digit s2"
      "two_digits s1 s2 = s mod 60"
    using pad2_shape [of "s mod 60"] sec by auto
  show ?thesis
    unfolding clock12_def H(1) M(1) S(1)
    using h H(2-) M(2-) S(2-) by simp
qed

lemma is_hms12_nonempty: "is_hms12 s \<Longrightarrow> s \<noteq> []"
  by auto

lemma formatTime_accepted: "zoneAccepted P zone \<Longrightarrow> formatTime P zone now = Inr (zoneClock P zone now)"
  by (auto simp: zoneAccepted_def zoneClock_def formatTime_def DateTimeFormat_format_def
      split: option.splits)

lemma formatTime_rejected: "\<not> zoneAccepted P zone \<Longrightarrow> formatTime P zone now = Inl RangeError"
  by (auto simp: zoneAccepted_def formatTime_def DateTimeFormat_format_def split: option.splits)

lemma is_hms12_zoneClock: "zoneAccepted P zone \<Longrightarrow> is_hms12 (zoneClock P zone now)"
  by (auto simp: zoneAccepted_def zoneClock_def is_hms12_clock12 split: option.splits)

lemma is_hms12_localClock: "is_hms12 (localClock P now)"
  by (simp add: localClock_def is_hms12_clock12)

lemma zoneAccepted_None: "zoneAccepted P None"
  by (simp add: zoneAccepted_def)

lemma zoneClock_None: "zoneClock P None now = localClock P now"
  by (simp add: zoneClock_def localClock_def)

lemma updateTime_accepted:
  "zoneAccepted P zone \<Longrightarrow> updateTime P zone now h = (setCurrentTime (zoneClock P zone now) h, None)"
  by (simp add: updateTime_def formatTime_accepted)

lemma updateTime_rejected:
  "\<not> zoneAccepted P zone \<Longrightarrow> updateTime P zone now h = (h, Some RangeError)"
  by (simp add: updateTime_def formatTime_rejected)

lemma updateTime_local: "updateTime P None now h = (setCurrentTime (localClock P now) h, None)"
  by (simp add: updateTime_accepted zoneAccepted_None zoneClock_None)

subsection \<open>What \<open>fetchData\<close> stores\<close>

lemma fetchData_unmounted: "isMounted h \<noteq> Some True \<Longrightarrow> fetchData P res now h = (h, None)"
  by (simp add: fetchData_def fetchData_try_def fetchData_finally_def)

lemma fetchData_failed:
  "isMounted h = Some True \<Longrightarrow> fetchGeoLocation P res = None \<Longrightarrow>
   fetchData P res now h =
     (setIsLoading False (setError None (setCurrentTime (localClock P now) h)), None)"
  by (simp add: fetchData_def fetchData_try_def fetchData_finally_def updateTime_local
      setError_def setCurrentTime_def)

lemma fetchData_located:
  "isMounted h = Some True \<Longrightarrow> fetchGeoLocation P res = Some l \<Longrightarrow>
   zoneAccepted P (Some (timezone l)) \<Longrightarrow>
   fetchData P res now h =
     (setIsLoading False (setError None (setCurrentTime (zoneClock P (Some (timezone l)) now)
        (setLocation (Some l) h))), None)"
  by (simp add: fetchData_def fetchData_try_def fetchData_finally_def updateTime_accepted
      setError_def setCurrentTime_def setLocation_def)

lemma fetchData_bad_zone:
  "isMounted h = Some True \<Longrightarrow> fetchGeoLocation P res = Some l \<Longrightarrow>
   \<not> zoneAccepted P (Some (timezone l)) \<Longrightarrow>
   fetchData P res now h =
     (setIsLoading False (setCurrentTime (localClock P now)
        (setError (Some ''Failed to load location data'') (setLocation (Some l) h))), None)"
  by (simp add: fetchData_def fetchData_try_def fetchData_catch_def fetchData_finally_def
      updateTime_local updateTime_rejected setError_def setCurrentTime_def setLocation_def)

subsection \<open>The steps of an activation\<close>

lemmas setters = setLocation_def setCurrentTime_def setIsLoading_def setError_def

lemma locationTimezone_update [simp]:
  "locationTimezone (h\<lparr>inFlight := b\<rparr>) = locationTimezone h"
  "locationTimezone (h\<lparr>timer := t\<rparr>) = locationTimezone h"
  "locationTimezone (h\<lparr>isMounted := m\<rparr>) = locationTimezone h"
  "locationTimezone (setCurrentTime s h) = locationTimezone h"
  "locationTimezone (setIsLoading b h) = locationTimezone h"
  "locationTimezone (setError e h) = locationTimezone h"
  "locationTimezone (setLocation l h) = map_option timezone l"
  by (simp_all add: locationTimezone_def setters)

lemma setters_frame [simp]:
  "timer (setCurrentTime s h) = timer h" "timer (setIsLoading b h) = timer h"
  "timer (setError e h) = timer h" "timer (setLocation l h) = timer h"
  "isMounted (setCurrentTime s h) = isMounted h" "isMounted (setIsLoading b h) = isMounted h"
  "isMounted (setError e h) = isMounted h" "isMounted (setLocation l h) = isMounted h"
  "inFlight (setCurrentTime s h) = inFlight h" "inFlight (setIsLoading b h) = inFlight h"
  "inFlight (setError e h) = inFlight h" "inFlight (setLocation l h) = inFlight h"
  by (simp_all add: setters)

lemma timer_ok_frame:
  "timer_ok P options h \<Longrightarrow> timer h' = timer h \<Longrightarrow>
   locationTimezone h' = locationTimezone h \<Longrightarrow> timer_ok P options h'"
  by (simp add: timer_ok_def split: option.splits)

lemma timer_ok_idle: "timer h = None \<Longrightarrow> timer_ok P options h"
  by (simp add: timer_ok_def)

lemma timerEffect_off:
  "\<not> truthy (autoUpdateTime config) \<Longrightarrow> timerEffect P config now h = Inr h"
  by (simp add: timerEffect_def)

lemma timerEffect_accepted:
  "truthy (autoUpdateTime config) \<Longrightarrow> zoneAccepted P (locationTimezone h) \<Longrightarrow>
   timerEffect P config now h =
     Inr ((setCurrentTime (zoneClock P (locationTimezone h) now) h)
            \<lparr>timer := Some \<lparr>delay = intervalDelay (timeUpdateInterval config),
                             tz = locationTimezone h\<rparr>\<rparr>)"
  by (simp add: timerEffect_def updateTime_accepted)

lemma timerEffect_rejected:
  "truthy (autoUpdateTime config) \<Longrightarrow> \<not> zoneAccepted P (locationTimezone h) \<Longrightarrow>
   timerEffect P config now h = Inl RangeError"
  by (simp add: timerEffect_def updateTime_rejected)

lemma step_Tick_idle: "timer h = None \<Longrightarrow> step P options h (Tick now) = Inr h"
  by simp

lemma step_Unmount: "step P options h Unmount = Inr (unmount h)"
  by simp

lemma step_Tick_ok:
  "timer h = Some iv \<Longrightarrow> timer_ok P options h \<Longrightarrow>
   step P options h (Tick now) = Inr (setCurrentTime (zoneClock P (locationTimezone h) now) h)"
  by (auto simp: timer_ok_def updateTime_accepted)

lemma step_Settled_done: "\<not> inFlight h \<Longrightarrow> step P options h (Settled res now) = Inr h"
  by simp

lemma step_Settled_unmounted:
  "inFlight h \<Longrightarrow> isMounted h \<noteq> Some True \<Longrightarrow>
   step P options h (Settled res now) = Inr (h\<lparr>inFlight := False\<rparr>)"
  by (simp add: fetchData_unmounted commit_def)

lemma step_Settled_failed:
  "inFlight h \<Longrightarrow> isMounted h = Some True \<Longrightarrow> fetchGeoLocation P res = None \<Longrightarrow>
   step P options h (Settled res now) =
     Inr (setIsLoading False (setError None (setCurrentTime (localClock P now)
            (h\<lparr>inFlight := False\<rparr>))))"
  by (simp add: fetchData_failed commit_def)

lemma step_Settled_located:
  "inFlight h \<Longrightarrow> isMounted h = Some True \<Longrightarrow> fetchGeoLocation P res = Some l \<Longrightarrow>
   step P options h (Settled res now) = commit P (mergeConfig options) now h (stored P l now h)"
  by (simp add: fetchData_located fetchData_bad_zone stored_def)

lemma stored_fields:
  "location (info (stored P l now h)) = Some l"
  "isLoading (info (stored P l now h)) = False"
  "visitorCount (info (stored P l now h)) = visitorCount (info h)"
  "timer (stored P l now h) = timer h"
  "isMounted (stored P l now h) = isMounted h"
  "inFlight (stored P l now h) = False"
  "locationTimezone (stored P l now h) = Some (timezone l)"
  by (simp_all add: stored_def setters locationTimezone_def)

lemma stored_currentTime:
  "currentTime (info (stored P l now h)) =
     (if zoneAccepted P (Some (timezone l)) then zoneClock P (Some (timezone l)) now
      else localClock P now)"
  by (simp add: stored_def setters)

lemma stored_error:
  "error (info (stored P l now h)) =
     (if zoneAccepted P (Some (timezone l)) then None else Some ''Failed to load location data'')"
  by (simp add: stored_def setters)

declare step.simps [simp del]

lemma step_timer_ok:
  assumes "timer_ok P options h" and "step P options h ev = Inr h'"
  shows "timer_ok P options h'"
proof (cases ev)
  case (Settled res now)
  show ?thesis
  proof (cases "inFlight h")
    case False
    with assms Settled show ?thesis by (simp add: step_Settled_done)
  next
    case True
    note fl = this
    show ?thesis
    proof (cases "isMounted h = Some True")
      case False
      with assms Settled fl have "h' = h\<lparr>inFlight := False\<rparr>"
        by (simp add: step_Settled_unmounted)
      then show ?thesis
        by (intro timer_ok_frame [OF assms(1)]) simp_all
    next
      case True
      note mt = this
      show ?thesis
      proof (cases "fetchGeoLocation P res")
        case None
        with assms Settled fl mt
        have "h' = setIsLoading False (setError None (setCurrentTime (localClock P now)
                     (h\<lparr>inFlight := False\<rparr>)))"
          by (simp add: step_Settled_failed)
        then show ?thesis
          by (intro timer_ok_frame [OF assms(1)]) simp_all
      next
        case (Some l)
        have st: "commit P (mergeConfig options) now h (stored P l now h) = Inr h'"
          using assms Settled fl mt Some by (simp add: step_Settled_located)
        show ?thesis
        proof (cases "locationTimezone h = Some (timezone l)")
          case True
          then have "h' = stored P l now h"
            using st by (simp add: commit_def stored_fields)
          with True show ?thesis
            by (intro timer_ok_frame [OF assms(1)]) (simp_all add: stored_fields)
        next
          case False
          then have te: "timerEffect P (mergeConfig options) now (timerCleanup (stored P l now h)) = Inr h'"
            using st by (simp add: commit_def stored_fields)
          show ?thesis
          proof (cases "truthy (autoUpdateTime (mergeConfig options))")
            case False
            with te show ?thesis
              by (auto simp: timerEffect_off timerCleanup_def timer_ok_idle)
          next
            case True
            note au = this
            have lt: "locationTimezone (timerCleanup (stored P l now h)) = Some (timezone l)"
              by (simp add: timerCleanup_def locationTimezone_def stored_fields)
            show ?thesis
            proof (cases "zoneAccepted P (Some (timezone l))")
              case True
              with te au lt show ?thesis
                by (auto simp: timerEffect_accepted timer_ok_def)
            next
              case False
              with te au lt show ?thesis
                by (simp add: timerEffect_rejected)
            qed
          qed
        qed
      qed
    qed
  qed
next
  case (Tick now)
  show ?thesis
  proof (cases "timer h")
    case None
    with assms Tick show ?thesis by (simp add: step_Tick_idle)
  next
    case (Some iv)
    with assms Tick
    have "h' = setCurrentTime (zoneClock P (locationTimezone h) now) h"
      by (simp add: step_Tick_ok)
    then show ?thesis
      by (intro timer_ok_frame [OF assms(1)]) simp_all
  qed
next
  case Unmount
  with assms show ?thesis
    by (auto simp: step_Unmount unmount_def timerCleanup_def geolocationCleanup_def timer_ok_idle)
qed

subsection \<open>Evaluation on the examples\<close>

lemmas clock_eval = localClock_def zoneClock_def zoneOffset_def wallSeconds_def clock12_def
  pad2_def hourOf12_def digit_chars

lemmas config_eval = mergeConfig_def DEFAULT_OPTIONS_def spread_def truthy_def intervalDelay_def

lemma randomInRange_demo: "randomInRange 0 50 demoDraw = 25"
  by (simp add: randomInRange_def times_double_def demoDraw_def round53_def roundToEven_def
      dropBits.simps)

lemma randomInRange_rounding: "randomInRange 0 50 roundingDraw = 8"
  by (simp add: randomInRange_def times_double_def roundingDraw_def round53_def roundToEven_def
      dropBits.simps)

lemma generateVisitorCount_demo: "generateVisitorCount demoDraw = 1272"
  by (simp add: generateVisitorCount_def randomInRange_demo)

lemma mount_demo: "mount demoPlatform noOptions demoDraw 0 = Inr demoHook"
  by (simp add: mount_def config_eval noOptions_def geolocationEffect_def
      timerEffect_accepted zoneAccepted_None locationTimezone_def setters demoHook_def
      generateVisitorCount_demo clock_eval demoPlatform_def)

subsection \<open>After the unmount\<close>

lemma step_after_unmount:
  assumes "isMounted h \<noteq> Some True" and "timer h = None"
  shows "\<exists>h'. step P options h ev = Inr h' \<and> info h' = info h \<and> timer h' = None \<and>
              isMounted h' \<noteq> Some True"
proof (cases ev)
  case (Settled res now)
  with assms show ?thesis
    by (cases "inFlight h") (simp_all add: step_Settled_done step_Settled_unmounted)
next
  case (Tick now)
  with assms show ?thesis by (simp add: step_Tick_idle)
next
  case Unmount
  with assms show ?thesis
    by (auto simp: step_Unmount unmount_def timerCleanup_def geolocationCleanup_def)
qed

lemma run_after_unmount:
  "isMounted h \<noteq> Some True \<Longrightarrow> timer h = None \<Longrightarrow>
   \<exists>h'. run P options h evs = Inr h' \<and> info h' = info h \<and> timer h' = None"
proof (induction evs arbitrary: h)
  case Nil
  then show ?case by simp
next
  case (Cons ev evs)
  from step_after_unmount [OF Cons.prems, of P options ev]
  obtain h1 where s: "step P options h ev = Inr h1" "info h1 = info h" "timer h1 = None"
      "isMounted h1 \<noteq> Some True"
    by blast
  from Cons.IH [OF s(4) s(3)] s(1,2) show ?case by simp
qed

lemma unmount_fields:
  "info (unmount h) = info h" "timer (unmount h) = None" "isMounted (unmount h) \<noteq> Some True"
  "inFlight (unmount h) = inFlight h"
  by (simp_all add: unmount_def timerCleanup_def geolocationCleanup_def)

text \<open>
  Claim C2. Unmounting clears the interval and changes no field of the snapshot. From
  then on, whatever events arrive (the lookup settling with any result, a tick, another
  unmount), every step succeeds, the snapshot stays what it was at the unmount, and no
  interval is registered.
\<close>

theorem no_mutation_after_unmount:
  "step P options h Unmount = Inr (unmount h) \<and>
   info (unmount h) = info h \<and> timer (unmount h) = None \<and>
   (\<exists>h'. run P options (unmount h) evs = Inr h' \<and> info h' = info h \<and> timer h' = None)"
  using run_after_unmount [OF unmount_fields(3) unmount_fields(2), of P options h evs]
  by (simp add: unmount_fields step_Unmount)

theorem no_mutation_after_unmount_witness:
  "step demoPlatform noOptions demoHook Unmount = Inr (unmount demoHook) \<and>
   info (unmount demoHook) = info demoHook \<and> timer (unmount demoHook) = None \<and>
   (\<exists>h'. run demoPlatform noOptions (unmount demoHook)
          [Settled (HttpResponse 200 (JsonObject parisResponse)) 5000, Tick 6000] = Inr h' \<and>
        info h' = info demoHook \<and> timer h' = None)"
  using no_mutation_after_unmount [of demoPlatform noOptions demoHook
      "[Settled (HttpResponse 200 (JsonObject parisResponse)) 5000, Tick 6000]"]
  by blast

subsection \<open>The visitor count\<close>

lemma dropBits_small: "n < 2 ^ 53 \<Longrightarrow> dropBits n = 0"
  by (simp add: dropBits.simps)

lemma dropBits_lower: "2 ^ 53 \<le> n \<Longrightarrow> 2 ^ (52 + dropBits n) \<le> n"
proof (induction n rule: dropBits.induct)
  case (1 n)
  then have big: "\<not> n < 2 ^ 53" by simp
  then have d: "dropBits n = Suc (dropBits (n div 2))" by (subst dropBits.simps) simp
  show ?case
  proof (cases "n div 2 < 2 ^ 53")
    case True
    then have "dropBits (n div 2) = 0" by (rule dropBits_small)
    with d "1.prems" show ?thesis by simp
  next
    case False
    then have "2 ^ (52 + dropBits (n div 2)) \<le> n div 2"
      using "1.IH" [OF big] by simp
    then have "2 * 2 ^ (52 + dropBits (n div 2)) \<le> n" by linarith
    moreover have "(2::int) ^ (52 + Suc (dropBits (n div 2))) = 2 * 2 ^ (52 + dropBits (n div 2))"
      by (simp only: add_Suc_right power_Suc)
    ultimately show ?thesis by (simp only: d)
  qed
qed

lemma dropBits_le_6:
  assumes "0 \<le> n" and "n < 2 ^ 59"
  shows "dropBits n \<le> 6"
proof (cases "n < 2 ^ 53")
  case True
  then show ?thesis by (simp add: dropBits_small)
next
  case False
  then have "(2::int) ^ (52 + dropBits n) \<le> n" by (simp add: dropBits_lower)
  with assms(2) have "(2::int) ^ (52 + dropBits n) < 2 ^ 59" by linarith
  then have "52 + dropBits n < 59" by (simp only: power_strict_increasing_iff)
  then show ?thesis by simp
qed

lemma roundToEven_upper:
  assumes "0 \<le> n"
  shows "roundToEven d n \<le> n + 2 ^ d div 2"
proof -
  let ?e = "(2::int) ^ d"
  have e: "0 < ?e" by simp
  have n: "n = n div ?e * ?e + n mod ?e" by (simp only: div_mult_mod_eq)
  have r: "0 \<le> n mod ?e" "n mod ?e < ?e" using e by simp_all
  show ?thesis
  proof (cases "?e < 2 * (n mod ?e) \<or> (2 * (n mod ?e) = ?e \<and> odd (n div ?e))")
    case True
    then have "roundToEven d n = n div ?e * ?e + ?e"
      by (simp add: roundToEven_def Let_def algebra_simps)
    moreover from True have "?e - n mod ?e \<le> ?e div 2" by linarith
    ultimately show ?thesis using n by linarith
  next
    case False
    then have "roundToEven d n = n div ?e * ?e"
      by (simp add: roundToEven_def Let_def)
    moreover have "0 \<le> ?e div 2" by simp
    ultimately show ?thesis using n r by linarith
  qed
qed

lemma roundToEven_lower: "n div 2 ^ d * 2 ^ d \<le> roundToEven d n"
  by (simp add: roundToEven_def Let_def algebra_simps)

lemma roundToEven_reaches:
  assumes "2 ^ d dvd b" and "b \<le> n"
  shows "b \<le> roundToEven d n"
proof -
  from assms(1) obtain c where b: "b = 2 ^ d * c" by (auto simp: dvd_def)
  have "c \<le> n div 2 ^ d"
  proof -
    have "2 ^ d * c div 2 ^ d \<le> n div 2 ^ d"
      using assms(2) unfolding b by (intro zdiv_mono1) simp_all
    then show ?thesis by simp
  qed
  then have "c * 2 ^ d \<le> n div 2 ^ d * 2 ^ d" by (simp add: mult_right_mono)
  with roundToEven_lower [of n d] have "c * 2 ^ d \<le> roundToEven d n" by linarith
  then show ?thesis unfolding b by (simp add: mult.commute)
qed


lemma round53_zero: "round53 0 = 0"
  by (simp add: round53_def roundToEven_def dropBits_small)

lemma times_double_nonneg: "0 \<le> c \<Longrightarrow> 0 \<le> m \<Longrightarrow> times_double c m = round53 (c * m)"
proof -
  assume "0 \<le> c" "0 \<le> m"
  then have p: "0 \<le> c * m" by simp
  show ?thesis
  proof (cases "c * m = 0")
    case True
    then show ?thesis by (simp only: times_double_def round53_zero sgn_0 abs_zero mult_zero_left)
  next
    case False
    with p have "0 < c * m" by linarith
    then show ?thesis by (simp add: times_double_def)
  qed
qed

lemma round53_nonneg: "0 \<le> n \<Longrightarrow> 0 \<le> round53 n"
proof -
  assume "0 \<le> n"
  then have "0 \<le> n div 2 ^ dropBits n * 2 ^ dropBits n"
    by (simp add: pos_imp_zdiv_nonneg_iff)
  with roundToEven_lower [of n "dropBits n"] show ?thesis
    unfolding round53_def by linarith
qed

lemma round53_upper:
  assumes "0 \<le> n" and "n < 2 ^ 59"
  shows "round53 n \<le> n + 32"
proof -
  have "dropBits n \<le> 6" by (rule dropBits_le_6 [OF assms])
  then have "(2::int) ^ dropBits n \<le> 2 ^ 6" by (intro power_increasing) simp_all
  then have "(2::int) ^ dropBits n div 2 \<le> 32" by simp
  with roundToEven_upper [OF assms(1), of "dropBits n"] show ?thesis
    unfolding round53_def by linarith
qed

lemma round53_reaches:
  assumes "0 \<le> n" and "n < 2 ^ 59" and "6 \<le> s" and "k * 2 ^ s \<le> n"
  shows "k * 2 ^ s \<le> round53 n"
proof -
  have "dropBits n \<le> s" using dropBits_le_6 [OF assms(1,2)] assms(3) by simp
  then have "(2::int) ^ dropBits n dvd 2 ^ s" by (rule le_imp_power_dvd)
  then have "(2::int) ^ dropBits n dvd k * 2 ^ s" by simp
  from roundToEven_reaches [OF this assms(4)] show ?thesis by (simp add: round53_def)
qed

lemma offset_facts:
  assumes "is_draw r"
  defines "n \<equiv> 51 * drawMantissa r"
  defines "k \<equiv> randomInRange 0 50 r"
  shows "k = round53 n div 2 ^ drawScale r"
    and "0 \<le> k" and "k \<le> 50"
    and "n < (k + 1) * 2 ^ drawScale r"
    and "k * 2 ^ drawScale r \<le> n + 32"
proof -
  let ?s = "drawScale r"
  let ?e = "(2::int) ^ ?s"
  from assms(1) have m: "0 \<le> drawMantissa r" "drawMantissa r < 2 ^ 53" and s: "53 \<le> ?s"
    by (simp_all add: is_draw_def)
  have n0: "0 \<le> n" and n59: "n < 2 ^ 59" and nmax: "n + 32 < 51 * 2 ^ 53"
    using m by (simp_all add: n_def)
  have e: "0 < ?e" by simp
  have e53: "(2::int) ^ 53 \<le> ?e" using s by (intro power_increasing) simp_all
  show k: "k = round53 n div ?e"
    using m by (simp add: k_def randomInRange_def n_def times_double_nonneg)
  show "0 \<le> k" using round53_nonneg [OF n0] by (simp add: k pos_imp_zdiv_nonneg_iff)
  have le: "k * ?e \<le> round53 n"
  proof -
    have "round53 n = k * ?e + round53 n mod ?e" by (simp only: k div_mult_mod_eq)
    moreover have "0 \<le> round53 n mod ?e" by simp
    ultimately show ?thesis by linarith
  qed
  have lt: "round53 n < (k + 1) * ?e"
  proof -
    have "round53 n = k * ?e + round53 n mod ?e" by (simp only: k div_mult_mod_eq)
    moreover have "round53 n mod ?e < ?e" by simp
    moreover have "(k + 1) * ?e = k * ?e + ?e" by (simp add: algebra_simps)
    ultimately show ?thesis by linarith
  qed
  from le round53_upper [OF n0 n59] show "k * ?e \<le> n + 32" by linarith
  have "k * ?e < 51 * ?e"
  proof -
    have "51 * (2::int) ^ 53 \<le> 51 * ?e" using e53 by simp
    with le round53_upper [OF n0 n59] nmax show ?thesis by linarith
  qed
  then have "k < 51" using e by (simp only: mult_less_cancel_right_pos)
  then show "k \<le> 50" by simp
  show "n < (k + 1) * ?e"
  proof (rule ccontr)
    assume "\<not> n < (k + 1) * ?e"
    then have "(k + 1) * ?e \<le> n" by simp
    from round53_reaches [OF n0 n59 _ this] s have "(k + 1) * ?e \<le> round53 n" by simp
    with lt show False by simp
  qed
qed

lemma offset_enclosure:
  assumes "is_draw r"
  shows "real_of_int (randomInRange 0 50 r) - 1 / 2 ^ 48 \<le> 51 * drawValue r"
    and "51 * drawValue r < real_of_int (randomInRange 0 50 r) + 1"
proof -
  let ?s = "drawScale r"
  let ?o = "randomInRange 0 50 r"
  let ?n = "51 * drawMantissa r"
  from assms have s: "53 \<le> ?s" by (simp add: is_draw_def)
  have e: "(0::real) < 2 ^ ?s" by simp
  have v: "51 * drawValue r = real_of_int ?n / 2 ^ ?s" by (simp add: drawValue_def)
  from offset_facts(4) [OF assms]
  have "real_of_int ?n < real_of_int ((?o + 1) * 2 ^ ?s)" by (simp only: of_int_less_iff)
  then have "real_of_int ?n < (real_of_int ?o + 1) * 2 ^ ?s" by simp
  then show "51 * drawValue r < real_of_int ?o + 1"
    unfolding v using e by (simp add: divide_less_eq)
  from offset_facts(5) [OF assms]
  have "real_of_int (?o * 2 ^ ?s) \<le> real_of_int (?n + 32)" by (simp only: of_int_le_iff)
  then have "real_of_int ?o * 2 ^ ?s \<le> real_of_int ?n + 32" by simp
  then have 1: "real_of_int ?o \<le> real_of_int ?n / 2 ^ ?s + 32 / 2 ^ ?s"
    using e by (simp add: field_simps)
  have "(2::real) ^ 53 \<le> 2 ^ ?s" using s by (intro power_increasing) simp_all
  then have "32 / (2::real) ^ ?s \<le> 32 / 2 ^ 53" by (intro divide_left_mono) simp_all
  also have "\<dots> = 1 / 2 ^ 48" by simp
  finally have "32 / (2::real) ^ ?s \<le> 1 / 2 ^ 48" .
  with 1 show "real_of_int ?o - 1 / 2 ^ 48 \<le> 51 * drawValue r"
    unfolding v by linarith
qed

lemma timerEffect_frame:
  assumes "timerEffect P config now h = Inr h'"
  shows "visitorCount (info h') = visitorCount (info h)"
    and "location (info h') = location (info h)"
    and "isLoading (info h') = isLoading (info h)"
    and "error (info h') = error (info h)"
    and "inFlight h' = inFlight h"
    and "isMounted h' = isMounted h"
  using assms
  by (auto simp: timerEffect_def updateTime_def setters split: if_splits sum.splits)

lemma commit_frame:
  assumes "commit P config now h0 h = Inr h'"
  shows "visitorCount (info h') = visitorCount (info h)"
    and "location (info h') = location (info h)"
    and "isLoading (info h') = isLoading (info h)"
    and "error (info h') = error (info h)"
    and "inFlight h' = inFlight h"
    and "isMounted h' = isMounted h"
  using assms timerEffect_frame [of P config now "timerCleanup h" h']
  by (auto simp: commit_def timerCleanup_def split: if_splits)

lemma fetchData_visitorCount:
  "visitorCount (info (fst (fetchData P res now h))) = visitorCount (info h)"
proof (cases "isMounted h = Some True")
  case False
  then show ?thesis by (simp add: fetchData_unmounted)
next
  case True
  show ?thesis
  proof (cases "fetchGeoLocation P res")
    case None
    with True show ?thesis by (simp add: fetchData_failed setters)
  next
    case (Some l)
    with True show ?thesis
      by (cases "zoneAccepted P (Some (timezone l))")
         (simp_all add: fetchData_located fetchData_bad_zone setters)
  qed
qed

lemma step_visitorCount:
  assumes "step P options h ev = Inr h'"
  shows "visitorCount (info h') = visitorCount (info h)"
proof (cases ev)
  case (Settled res now)
  show ?thesis
  proof (cases "inFlight h")
    case False
    with assms Settled show ?thesis by (simp add: step_Settled_done)
  next
    case True
    with assms Settled
    have "commit P (mergeConfig options) now h (fst (fetchData P res now (h\<lparr>inFlight := False\<rparr>))) = Inr h'"
      by (simp add: step.simps)
    from commit_frame(1) [OF this] show ?thesis
      by (simp add: fetchData_visitorCount)
  qed
next
  case (Tick now)
  with assms show ?thesis
    by (auto simp: step.simps updateTime_def setters split: option.splits sum.splits)
next
  case Unmount
  with assms show ?thesis by (auto simp: step_Unmount unmount_fields)
qed

lemma run_visitorCount:
  "run P options h evs = Inr h' \<Longrightarrow> visitorCount (info h') = visitorCount (info h)"
proof (induction evs arbitrary: h)
  case Nil
  then show ?case by simp
next
  case (Cons ev evs)
  then obtain h1 where s: "step P options h ev = Inr h1" and r: "run P options h1 evs = Inr h'"
    by (auto split: sum.splits)
  from Cons.IH [OF r] step_visitorCount [OF s] show ?case by simp
qed

lemma geolocationEffect_frame:
  "visitorCount (info (geolocationEffect config h)) = visitorCount (info h)"
  "location (info (geolocationEffect config h)) = location (info h)"
  "currentTime (info (geolocationEffect config h)) = currentTime (info h)"
  "error (info (geolocationEffect config h)) = error (info h)"
  "timer (geolocationEffect config h) = timer h"
  "locationTimezone (geolocationEffect config h) = locationTimezone h"
  by (simp_all add: geolocationEffect_def setters locationTimezone_def)

lemma mount_visitorCount:
  "mount P options r t0 = Inr h \<Longrightarrow> visitorCount (info h) = generateVisitorCount r"
  by (auto simp: mount_def Let_def geolocationEffect_frame dest!: timerEffect_frame(1))

lemmas hook_eval = step.simps commit_def fetchData_def fetchData_try_def fetchData_catch_def
  fetchData_finally_def fetchGeoLocation_def response_ok_def or_else_def updateTime_def
  formatTime_def DateTimeFormat_format_def timerEffect_def timerCleanup_def
  locationTimezone_def setters

lemma run_demo_paris:
  "run demoPlatform noOptions demoHook
     [Settled (HttpResponse 200 (JsonObject parisResponse)) 5000, Tick 6000] = Inr demoParisHook"
  by (simp add: hook_eval config_eval clock_eval demoPlatform_def noOptions_def
      parisResponse_def parisLocation_def demoHook_def demoParisHook_def)

text \<open>
  Claim C5. With a draw \<open>r\<close> of \<^verbatim>\<open>Math.random()\<close>, a double in \<open>[0, 1)\<close>, the count the
  mount stores is 1247 plus \<open>randomInRange 0 50 r\<close>; after any events the count is the one
  stored at the mount and lies between 1247 and 1297. The offset follows the draw: it
  is an integer \<open>k\<close> with \<open>k - 2 ^ - 48 \<le> 51 r < k + 1\<close>, that is the integer part of
  \<open>51 r\<close>, or the next integer when the double product rounds up to it; so the 51
  offsets belong to 51 intervals of draws of length \<open>1/51\<close> up to \<open>2 ^ - 48\<close>.
\<close>

theorem visitorCount_fixed_in_range:
  assumes "is_draw r"
    and "mount P options r t0 = Inr h0" and "run P options h0 evs = Inr h"
  shows "visitorCount (info h0) = 1247 + randomInRange 0 50 r \<and>
         visitorCount (info h) = visitorCount (info h0) \<and>
         1247 \<le> visitorCount (info h) \<and> visitorCount (info h) \<le> 1297 \<and>
         real_of_int (visitorCount (info h) - 1247) - 1 / 2 ^ 48 \<le> 51 * drawValue r \<and>
         51 * drawValue r < real_of_int (visitorCount (info h) - 1247) + 1"
proof -
  have m: "visitorCount (info h0) = 1247 + randomInRange 0 50 r"
    using mount_visitorCount [OF assms(2)] by (simp add: generateVisitorCount_def)
  have s: "visitorCount (info h) = visitorCount (info h0)"
    by (rule run_visitorCount [OF assms(3)])
  have k: "visitorCount (info h) - 1247 = randomInRange 0 50 r"
    using m s by simp
  have b: "1247 \<le> visitorCount (info h)" "visitorCount (info h) \<le> 1297"
    using k offset_facts(2,3) [OF assms(1)] by linarith+
  note e = offset_enclosure [OF assms(1), folded k]
  from m s b e show ?thesis by (intro conjI)
qed

theorem visitorCount_fixed_in_range_witness:
  "is_draw demoDraw \<and>
   mount demoPlatform noOptions demoDraw 0 = Inr demoHook \<and>
   run demoPlatform noOptions demoHook
     [Settled (HttpResponse 200 (JsonObject parisResponse)) 5000, Tick 6000] = Inr demoParisHook \<and>
   visitorCount (info demoHook) = 1247 + randomInRange 0 50 demoDraw \<and>
   visitorCount (info demoParisHook) = visitorCount (info demoHook) \<and>
   1247 \<le> visitorCount (info demoParisHook) \<and> visitorCount (info demoParisHook) \<le> 1297 \<and>
   randomInRange 0 50 demoDraw = 25 \<and> randomInRange 0 50 roundingDraw = 8"
proof -
  have r: "is_draw demoDraw" by (simp add: is_draw_def demoDraw_def)
  from visitorCount_fixed_in_range [OF r mount_demo run_demo_paris] r mount_demo run_demo_paris
    randomInRange_demo randomInRange_rounding
  show ?thesis by blast
qed

subsection \<open>The mount\<close>

lemma setters_info [simp]:
  "visitorCount (info (setCurrentTime s h)) = visitorCount (info h)"
  "location (info (setCurrentTime s h)) = location (info h)"
  "currentTime (info (setCurrentTime s h)) = s"
  "isLoading (info (setCurrentTime s h)) = isLoading (info h)"
  "error (info (setCurrentTime s h)) = error (info h)"
  "visitorCount (info (setIsLoading b h)) = visitorCount (info h)"
  "location (info (setIsLoading b h)) = location (info h)"
  "currentTime (info (setIsLoading b h)) = currentTime (info h)"
  "isLoading (info (setIsLoading b h)) = b"
  "error (info (setIsLoading b h)) = error (info h)"
  "visitorCount (info (setError e h)) = visitorCount (info h)"
  "location (info (setError e h)) = location (info h)"
  "currentTime (info (setError e h)) = currentTime (info h)"
  "isLoading (info (setError e h)) = isLoading (info h)"
  "error (info (setError e h)) = e"
  "visitorCount (info (setLocation l h)) = visitorCount (info h)"
  "location (info (setLocation l h)) = l"
  "currentTime (info (setLocation l h)) = currentTime (info h)"
  "isLoading (info (setLocation l h)) = isLoading (info h)"
  "error (info (setLocation l h)) = error (info h)"
  by (simp_all add: setters)

lemma mount_eq:
  "mount P options r t0 =
     timerEffect P (mergeConfig options) t0
       (geolocationEffect (mergeConfig options)
          \<lparr>info = \<lparr>visitorCount = generateVisitorCount r, location = None,
                     currentTime = [], isLoading = True, error = None\<rparr>,
             isMounted = None, inFlight = False, timer = None\<rparr>)"
  by (simp add: mount_def Let_def)

lemma mount_timer_ok:
  assumes "mount P options r t0 = Inr h"
  shows "timer_ok P options h"
proof (cases "truthy (autoUpdateTime (mergeConfig options))")
  case False
  with assms show ?thesis
    by (auto simp: mount_eq timerEffect_off geolocationEffect_frame intro!: timer_ok_idle)
next
  case True
  let ?g = "geolocationEffect (mergeConfig options)
          \<lparr>info = \<lparr>visitorCount = generateVisitorCount r, location = None,
                     currentTime = [], isLoading = True, error = None\<rparr>,
             isMounted = None, inFlight = False, timer = None\<rparr>"
  have lt: "locationTimezone ?g = None"
    by (simp add: geolocationEffect_frame locationTimezone_def)
  then have "zoneAccepted P (locationTimezone ?g)" by (simp add: zoneAccepted_None)
  from timerEffect_accepted [OF True this] assms lt show ?thesis
    by (auto simp: mount_eq timer_ok_def zoneAccepted_None)
qed

lemma run_timer_ok:
  "timer_ok P options h \<Longrightarrow> run P options h evs = Inr h' \<Longrightarrow> timer_ok P options h'"
proof (induction evs arbitrary: h)
  case Nil
  then show ?case by simp
next
  case (Cons ev evs)
  then obtain h1 where s: "step P options h ev = Inr h1" and r: "run P options h1 evs = Inr h'"
    by (auto split: sum.splits)
  from Cons.IH [OF step_timer_ok [OF Cons.prems(1) s] r] show ?case .
qed

subsection \<open>An activation without the lookup\<close>

lemma mount_no_lookup:
  assumes "\<not> truthy (fetchLocation (mergeConfig options))"
  shows "\<exists>h. mount P options r t0 = Inr h \<and> \<not> inFlight h \<and> \<not> isLoading (info h) \<and>
             location (info h) = None"
proof -
  let ?g = "setIsLoading False
          \<lparr>info = \<lparr>visitorCount = generateVisitorCount r, location = None,
                     currentTime = [], isLoading = True, error = None\<rparr>,
             isMounted = None, inFlight = False, timer = None\<rparr>"
  have m: "mount P options r t0 = timerEffect P (mergeConfig options) t0 ?g"
    using assms by (simp add: mount_eq geolocationEffect_def)
  show ?thesis
  proof (cases "truthy (autoUpdateTime (mergeConfig options))")
    case False
    then show ?thesis by (simp add: m timerEffect_off)
  next
    case True
    have "zoneAccepted P (locationTimezone ?g)"
      by (simp add: locationTimezone_def zoneAccepted_None)
    from timerEffect_accepted [OF True this] show ?thesis
      by (simp add: m)
  qed
qed

lemma step_no_lookup:
  assumes "\<not> inFlight h" and "timer_ok P options h"
  shows "\<exists>h'. step P options h ev = Inr h' \<and> \<not> inFlight h' \<and>
              location (info h') = location (info h) \<and>
              isLoading (info h') = isLoading (info h) \<and> timer_ok P options h'"
proof -
  have "\<exists>h'. step P options h ev = Inr h' \<and> \<not> inFlight h' \<and>
              location (info h') = location (info h) \<and> isLoading (info h') = isLoading (info h)"
  proof (cases ev)
    case (Settled res now)
    with assms show ?thesis by (simp add: step_Settled_done)
  next
    case (Tick now)
    show ?thesis
    proof (cases "timer h")
      case None
      with assms Tick show ?thesis by (simp add: step_Tick_idle)
    next
      case (Some iv)
      with assms Tick show ?thesis by (simp add: step_Tick_ok)
    qed
  next
    case Unmount
    with assms show ?thesis by (simp add: step_Unmount unmount_fields)
  qed
  then show ?thesis using step_timer_ok [OF assms(2)] by blast
qed

lemma run_no_lookup:
  "\<not> inFlight h \<Longrightarrow> timer_ok P options h \<Longrightarrow>
   \<exists>h'. run P options h evs = Inr h' \<and> \<not> inFlight h' \<and>
        location (info h') = location (info h) \<and> isLoading (info h') = isLoading (info h)"
proof (induction evs arbitrary: h)
  case Nil
  then show ?case by simp
next
  case (Cons ev evs)
  from step_no_lookup [OF Cons.prems, of ev]
  obtain h1 where s: "step P options h ev = Inr h1" "\<not> inFlight h1"
      "location (info h1) = location (info h)" "isLoading (info h1) = isLoading (info h)"
      "timer_ok P options h1"
    by blast
  from Cons.IH [OF s(2) s(5)] s(1,3,4) show ?case by simp
qed

text \<open>
  Claim C8. With \<open>fetchLocation: false\<close> the mount succeeds, leaves \<open>isLoading\<close> false
  and issues no request; after any events the hook still has \<open>isLoading\<close> false, no
  request in flight and no location, and no step throws.
\<close>

theorem no_lookup_when_disabled:
  assumes "fetchLocation options = Val False"
  shows "\<exists>h0. mount P options r t0 = Inr h0 \<and> \<not> isLoading (info h0) \<and> \<not> inFlight h0 \<and>
              location (info h0) = None \<and>
              (\<forall>evs. \<exists>h. run P options h0 evs = Inr h \<and> \<not> isLoading (info h) \<and>
                          \<not> inFlight h \<and> location (info h) = None)"
proof -
  have "\<not> truthy (fetchLocation (mergeConfig options))"
    using assms by (simp add: config_eval)
  from mount_no_lookup [OF this, of P r t0]
  obtain h0 where m: "mount P options r t0 = Inr h0" "\<not> inFlight h0" "\<not> isLoading (info h0)"
      "location (info h0) = None"
    by blast
  have "\<exists>h. run P options h0 evs = Inr h \<and> \<not> isLoading (info h) \<and> \<not> inFlight h \<and>
            location (info h) = None" for evs
    using run_no_lookup [OF m(2) mount_timer_ok [OF m(1)], of evs] m(3,4) by auto
  with m show ?thesis by blast
qed

lemma mount_no_lookup_demo: "mount demoPlatform noLookupOptions demoDraw 0 = Inr noLookupHook"
  by (simp add: mount_def config_eval noLookupOptions_def geolocationEffect_def
      timerEffect_accepted zoneAccepted_None locationTimezone_def setters noLookupHook_def
      generateVisitorCount_demo clock_eval demoPlatform_def)

theorem no_lookup_when_disabled_witness:
  "fetchLocation noLookupOptions = Val False \<and>
   mount demoPlatform noLookupOptions demoDraw 0 = Inr noLookupHook \<and>
   \<not> isLoading (info noLookupHook) \<and> \<not> inFlight noLookupHook \<and>
   (\<exists>h. run demoPlatform noLookupOptions noLookupHook
          [Settled (HttpResponse 200 (JsonObject parisResponse)) 5000, Tick 6000] = Inr h \<and>
        \<not> isLoading (info h) \<and> location (info h) = None)"
proof -
  have f: "fetchLocation noLookupOptions = Val False" by (simp add: noLookupOptions_def)
  from no_lookup_when_disabled [OF f, of demoPlatform demoDraw 0]
  obtain h0 where m: "mount demoPlatform noLookupOptions demoDraw 0 = Inr h0"
      "\<not> isLoading (info h0)" "\<not> inFlight h0"
    and r: "\<forall>evs. \<exists>h. run demoPlatform noLookupOptions h0 evs = Inr h \<and>
             \<not> isLoading (info h) \<and> \<not> inFlight h \<and> location (info h) = None"
    by blast
  from m(1) have "h0 = noLookupHook" by (simp add: mount_no_lookup_demo)
  with f m r mount_no_lookup_demo show ?thesis by blast
qed

subsection \<open>The lookup settles\<close>

lemma lookupFailed_None: "lookupFailed res \<Longrightarrow> fetchGeoLocation P res = None"
  by (cases res) (auto simp: fetchGeoLocation_def)

lemma fetchData_inFlight: "inFlight (fst (fetchData P res now h)) = inFlight h"
proof (cases "isMounted h = Some True")
  case False
  then show ?thesis by (simp add: fetchData_unmounted)
next
  case True
  show ?thesis
  proof (cases "fetchGeoLocation P res")
    case None
    with True show ?thesis by (simp add: fetchData_failed)
  next
    case (Some l)
    with True show ?thesis
      by (cases "zoneAccepted P (Some (timezone l))")
         (simp_all add: fetchData_located fetchData_bad_zone)
  qed
qed

lemma step_Settled_inFlight:
  assumes "step P options h (Settled res now) = Inr h'"
  shows "\<not> inFlight h'"
proof (cases "inFlight h")
  case False
  with assms show ?thesis by (simp add: step_Settled_done)
next
  case True
  with assms
  have "commit P (mergeConfig options) now h (fst (fetchData P res now (h\<lparr>inFlight := False\<rparr>))) = Inr h'"
    by (simp add: step.simps)
  from commit_frame(5) [OF this] show ?thesis by (simp add: fetchData_inFlight)
qed

lemma awaiting_ok_frame:
  "awaiting_ok h \<Longrightarrow> inFlight h' = inFlight h \<Longrightarrow> location (info h') = location (info h) \<Longrightarrow>
   error (info h') = error (info h) \<Longrightarrow> isLoading (info h') = isLoading (info h) \<Longrightarrow>
   awaiting_ok h'"
  by (simp add: awaiting_ok_def)

lemma step_awaiting_ok:
  assumes "awaiting_ok h" and "step P options h ev = Inr h'"
  shows "awaiting_ok h'"
proof (cases ev)
  case (Settled res now)
  with assms(2) have "\<not> inFlight h'" by (simp add: step_Settled_inFlight)
  then show ?thesis by (simp add: awaiting_ok_def)
next
  case (Tick now)
  show ?thesis
  proof (rule awaiting_ok_frame [OF assms(1)])
    show "inFlight h' = inFlight h" "location (info h') = location (info h)"
      "error (info h') = error (info h)" "isLoading (info h') = isLoading (info h)"
      using assms(2) Tick
      by (auto simp: step.simps updateTime_def split: option.splits sum.splits)
  qed
next
  case Unmount
  with assms show ?thesis
    by (auto simp: step_Unmount unmount_fields intro: awaiting_ok_frame)
qed

lemma run_awaiting_ok:
  "awaiting_ok h \<Longrightarrow> run P options h evs = Inr h' \<Longrightarrow> awaiting_ok h'"
proof (induction evs arbitrary: h)
  case Nil
  then show ?case by simp
next
  case (Cons ev evs)
  then obtain h1 where s: "step P options h ev = Inr h1" and r: "run P options h1 evs = Inr h'"
    by (auto split: sum.splits)
  from Cons.IH [OF step_awaiting_ok [OF Cons.prems(1) s] r] show ?case .
qed

lemma mount_awaiting_ok:
  assumes "mount P options r t0 = Inr h"
  shows "awaiting_ok h"
proof -
  let ?i = "\<lparr>info = \<lparr>visitorCount = generateVisitorCount r, location = None,
                     currentTime = [], isLoading = True, error = None\<rparr>,
             isMounted = None, inFlight = False, timer = None\<rparr>"
  have g: "awaiting_ok (geolocationEffect (mergeConfig options) ?i)"
    by (simp add: awaiting_ok_def geolocationEffect_def)
  from assms have t: "timerEffect P (mergeConfig options) t0
      (geolocationEffect (mergeConfig options) ?i) = Inr h"
    by (simp add: mount_eq)
  show ?thesis
    by (rule awaiting_ok_frame [OF g])
       (simp_all add: timerEffect_frame [OF t])
qed

lemma reachable_awaiting:
  assumes "mount P options r t0 = Inr h0" and "run P options h0 evs = Inr h" and "inFlight h"
  shows "location (info h) = None" and "error (info h) = None" and "isLoading (info h)"
  using run_awaiting_ok [OF mount_awaiting_ok [OF assms(1)] assms(2)] assms(3)
  by (simp_all add: awaiting_ok_def)

text \<open>
  Claim C1 (what the code does). In any activation whose lookup is still in flight and
  whose component is mounted, a failing lookup (rejected request, status outside
  200..299, body that does not parse) settles with \<open>location\<close> absent, \<open>isLoading\<close>
  false and \<open>currentTime\<close> the local time, but with \<open>error\<close> absent: \<open>fetchGeoLocation\<close>
  turns the failure into \<open>null\<close> and \<open>fetchData\<close> then calls \<^verbatim>\<open>setError(null)\<close>.
\<close>

theorem failed_lookup_leaves_error_unset:
  assumes "mount P options r t0 = Inr h0" and "run P options h0 evs = Inr h"
    and "inFlight h" and "isMounted h = Some True" and "lookupFailed res"
  shows "\<exists>h'. step P options h (Settled res now) = Inr h' \<and>
              location (info h') = None \<and> error (info h') = None \<and>
              \<not> isLoading (info h') \<and> currentTime (info h') = localClock P now"
  using step_Settled_failed [OF assms(3,4) lookupFailed_None [OF assms(5), of P], of options now]
    reachable_awaiting(1) [OF assms(1,2,3)]
  by simp

lemma step_demo_failed:
  "step demoPlatform noOptions demoHook (Settled NetworkFailure 5000) = Inr demoFailedHook"
  by (simp add: hook_eval config_eval clock_eval demoPlatform_def noOptions_def
      demoHook_def demoFailedHook_def)

theorem failed_lookup_leaves_error_unset_witness:
  "mount demoPlatform noOptions demoDraw 0 = Inr demoHook \<and>
   run demoPlatform noOptions demoHook [] = Inr demoHook \<and>
   inFlight demoHook \<and> isMounted demoHook = Some True \<and> lookupFailed NetworkFailure \<and>
   step demoPlatform noOptions demoHook (Settled NetworkFailure 5000) = Inr demoFailedHook \<and>
   location (info demoFailedHook) = None \<and> error (info demoFailedHook) = None \<and>
   currentTime (info demoFailedHook) = localClock demoPlatform 5000"
proof -
  have a: "run demoPlatform noOptions demoHook [] = Inr demoHook" "inFlight demoHook"
    "isMounted demoHook = Some True" "lookupFailed NetworkFailure"
    by (simp_all add: demoHook_def)
  from failed_lookup_leaves_error_unset [OF mount_demo a, of 5000]
  show ?thesis
    using a mount_demo by (simp add: step_demo_failed)
qed

subsection \<open>A time zone the browser does not know\<close>

lemma fetchGeoLocation_object:
  "response_ok status \<Longrightarrow>
   fetchGeoLocation P (HttpResponse status (JsonObject data)) =
     Some \<lparr>city = or_else (data ''city'') ''Unknown'',
           country = or_else (data ''country_name'') ''Unknown'',
           countryCode = or_else (data ''country_code'') ''XX'',
           region = or_else (data ''region'') [],
           timezone = or_else (data ''timezone'') (systemTimeZone P)\<rparr>"
  by (simp add: fetchGeoLocation_def)

lemma step_Settled_bad_zone:
  assumes "inFlight h" and "isMounted h = Some True" and "location (info h) = None"
    and "truthy (autoUpdateTime (mergeConfig options))"
    and "fetchGeoLocation P res = Some l" and "\<not> zoneAccepted P (Some (timezone l))"
  shows "step P options h (Settled res now) = Inl RangeError"
proof -
  have "locationTimezone h \<noteq> locationTimezone (stored P l now h)"
    using assms(3) by (simp add: stored_fields locationTimezone_def)
  then have "step P options h (Settled res now) =
      timerEffect P (mergeConfig options) now (timerCleanup (stored P l now h))"
    by (simp add: step_Settled_located [OF assms(1,2,5)] commit_def)
  moreover have "\<not> zoneAccepted P (locationTimezone (timerCleanup (stored P l now h)))"
    using assms(6) by (simp add: timerCleanup_def stored_fields)
  ultimately show ?thesis
    by (simp add: timerEffect_rejected [OF assms(4)])
qed

text \<open>
  Claim C9 (what the code does). With \<open>autoUpdateTime\<close> on, in any activation whose
  lookup is in flight and whose component is mounted, a successful response whose
  \<open>timezone\<close> is a non-empty string the browser does not know makes the step of the
  settling lookup end in \<open>RangeError\<close>: \<open>fetchData\<close> catches the exception of its own
  \<open>updateTime\<close>, but it has stored the location, and the timer effect, re-run for the new
  \<^verbatim>\<open>location?.timezone\<close>, calls \<open>updateTime\<close> outside any \<^verbatim>\<open>try\<close>.
\<close>

theorem unknown_timezone_throws:
  assumes "mount P options r t0 = Inr h0" and "run P options h0 evs = Inr h"
    and "inFlight h" and "isMounted h = Some True"
    and "truthy (autoUpdateTime (mergeConfig options))"
    and "response_ok status" and "data ''timezone'' = Some z" and "z \<noteq> []"
    and "zoneOffset P z = None"
  shows "step P options h (Settled (HttpResponse status (JsonObject data)) now) = Inl RangeError"
proof -
  let ?l = "\<lparr>city = or_else (data ''city'') ''Unknown'',
           country = or_else (data ''country_name'') ''Unknown'',
           countryCode = or_else (data ''country_code'') ''XX'',
           region = or_else (data ''region'') [],
           timezone = or_else (data ''timezone'') (systemTimeZone P)\<rparr>"
  have tz: "timezone ?l = z" using assms(7,8) by (simp add: or_else_def)
  have nz: "\<not> zoneAccepted P (Some z)"
    using assms(8,9) by (simp add: zoneAccepted_def)
  have "\<not> zoneAccepted P (Some (timezone ?l))"
    by (subst tz) (rule nz)
  from step_Settled_bad_zone [OF assms(3,4) reachable_awaiting(1) [OF assms(1,2,3)] assms(5)
      fetchGeoLocation_object [OF assms(6)] this]
  show ?thesis .
qed

theorem unknown_timezone_throws_witness:
  "mount demoPlatform noOptions demoDraw 0 = Inr demoHook \<and>
   run demoPlatform noOptions demoHook [] = Inr demoHook \<and>
   inFlight demoHook \<and> isMounted demoHook = Some True \<and>
   truthy (autoUpdateTime (mergeConfig noOptions)) \<and> response_ok 200 \<and>
   marsResponse ''timezone'' = Some ''Mars/Phobos'' \<and> ''Mars/Phobos'' \<noteq> [] \<and>
   zoneOffset demoPlatform ''Mars/Phobos'' = None \<and>
   step demoPlatform noOptions demoHook
     (Settled (HttpResponse 200 (JsonObject marsResponse)) 5000) = Inl RangeError"
proof -
  have a: "run demoPlatform noOptions demoHook [] = Inr demoHook" "inFlight demoHook"
    "isMounted demoHook = Some True" "truthy (autoUpdateTime (mergeConfig noOptions))"
    "response_ok 200" "marsResponse ''timezone'' = Some ''Mars/Phobos''" "''Mars/Phobos'' \<noteq> []"
    "zoneOffset demoPlatform ''Mars/Phobos'' = None"
    by (simp_all add: demoHook_def config_eval noOptions_def response_ok_def marsResponse_def
        zoneOffset_def demoPlatform_def)
  from unknown_timezone_throws [of demoPlatform noOptions demoDraw 0 demoHook "[]" demoHook 200
      marsResponse "''Mars/Phobos''" 5000, OF mount_demo a] a mount_demo
  show ?thesis by blast
qed

subsection \<open>Options that are present but undefined\<close>

lemma timerEffect_config:
  "truthy (autoUpdateTime c) = truthy (autoUpdateTime c') \<Longrightarrow>
   intervalDelay (timeUpdateInterval c) = intervalDelay (timeUpdateInterval c') \<Longrightarrow>
   timerEffect P c now h = timerEffect P c' now h"
  by (simp add: timerEffect_def)

lemma step_config:
  assumes "truthy (autoUpdateTime (mergeConfig options)) = truthy (autoUpdateTime (mergeConfig options'))"
    and "intervalDelay (timeUpdateInterval (mergeConfig options)) =
         intervalDelay (timeUpdateInterval (mergeConfig options'))"
  shows "step P options h ev = step P options' h ev"
  using timerEffect_config [OF assms]
  by (cases ev) (simp_all add: step.simps commit_def)

lemma run_config:
  assumes "truthy (autoUpdateTime (mergeConfig options)) = truthy (autoUpdateTime (mergeConfig options'))"
    and "intervalDelay (timeUpdateInterval (mergeConfig options)) =
         intervalDelay (timeUpdateInterval (mergeConfig options'))"
  shows "run P options h evs = run P options' h evs"
  by (induction evs arbitrary: h) (simp_all add: step_config [OF assms] split: sum.splits)

lemma mount_config:
  assumes "truthy (autoUpdateTime (mergeConfig options)) = truthy (autoUpdateTime (mergeConfig options'))"
    and "intervalDelay (timeUpdateInterval (mergeConfig options)) =
         intervalDelay (timeUpdateInterval (mergeConfig options'))"
    and "truthy (fetchLocation (mergeConfig options)) = truthy (fetchLocation (mergeConfig options'))"
  shows "mount P options r t0 = mount P options' r t0"
  using timerEffect_config [OF assms(1,2)] assms(3)
  by (simp add: mount_eq geolocationEffect_def)

text \<open>
  Claim C10. An options object whose \<open>fetchLocation\<close> is present with the value
  \<^verbatim>\<open>undefined\<close> leaves \<^verbatim>\<open>undefined\<close> in the merged configuration, which is falsy, while a
  missing key gives the default \<open>true\<close>; the mount and every run are those of
  \<open>fetchLocation: false\<close>. The same holds for \<open>autoUpdateTime\<close>.
\<close>

theorem undefined_option_is_false:
  "(fetchLocation options = Undefined \<longrightarrow>
      fetchLocation (mergeConfig options) = Undefined \<and>
      \<not> truthy (fetchLocation (mergeConfig options)) \<and>
      truthy (fetchLocation (mergeConfig (options\<lparr>fetchLocation := Missing\<rparr>))) \<and>
      mount P options r t0 = mount P (options\<lparr>fetchLocation := Val False\<rparr>) r t0 \<and>
      run P options h evs = run P (options\<lparr>fetchLocation := Val False\<rparr>) h evs) \<and>
   (autoUpdateTime options = Undefined \<longrightarrow>
      autoUpdateTime (mergeConfig options) = Undefined \<and>
      \<not> truthy (autoUpdateTime (mergeConfig options)) \<and>
      truthy (autoUpdateTime (mergeConfig (options\<lparr>autoUpdateTime := Missing\<rparr>))) \<and>
      mount P options r t0 = mount P (options\<lparr>autoUpdateTime := Val False\<rparr>) r t0 \<and>
      run P options h evs = run P (options\<lparr>autoUpdateTime := Val False\<rparr>) h evs)"
proof (intro conjI impI)
  assume u: "fetchLocation options = Undefined"
  show "mount P options r t0 = mount P (options\<lparr>fetchLocation := Val False\<rparr>) r t0"
    by (rule mount_config) (simp_all add: config_eval u)
  show "run P options h evs = run P (options\<lparr>fetchLocation := Val False\<rparr>) h evs"
    by (rule run_config) (simp_all add: config_eval)
qed (simp_all add: config_eval mount_config run_config)

lemma mount_undefined_demo:
  "mount demoPlatform undefinedOptions demoDraw 0 =
     Inr \<lparr>info = \<lparr>visitorCount = 1272, location = None, currentTime = [],
                   isLoading = False, error = None\<rparr>,
          isMounted = None, inFlight = False, timer = None\<rparr>"
  by (simp add: mount_def config_eval undefinedOptions_def geolocationEffect_def
      timerEffect_off setters generateVisitorCount_demo)

theorem undefined_option_is_false_witness:
  "fetchLocation undefinedOptions = Undefined \<and> autoUpdateTime undefinedOptions = Undefined \<and>
   fetchLocation (mergeConfig undefinedOptions) = Undefined \<and>
   autoUpdateTime (mergeConfig undefinedOptions) = Undefined \<and>
   mount demoPlatform (undefinedOptions\<lparr>fetchLocation := Val False\<rparr>) demoDraw 0 =
     Inr \<lparr>info = \<lparr>visitorCount = 1272, location = None, currentTime = [],
                   isLoading = False, error = None\<rparr>,
          isMounted = None, inFlight = False, timer = None\<rparr> \<and>
   mount demoPlatform (undefinedOptions\<lparr>autoUpdateTime := Val False\<rparr>) demoDraw 0 =
     Inr \<lparr>info = \<lparr>visitorCount = 1272, location = None, currentTime = [],
                   isLoading = False, error = None\<rparr>,
          isMounted = None, inFlight = False, timer = None\<rparr>"
proof -
  have u: "fetchLocation undefinedOptions = Undefined" "autoUpdateTime undefinedOptions = Undefined"
    by (simp_all add: undefinedOptions_def)
  note t = undefined_option_is_false [of undefinedOptions demoPlatform demoDraw 0 demoHook "[]"]
  from t u have c: "fetchLocation (mergeConfig undefinedOptions) = Undefined"
    "autoUpdateTime (mergeConfig undefinedOptions) = Undefined"
    by blast+
  from t u have m: "mount demoPlatform undefinedOptions demoDraw 0 =
      mount demoPlatform (undefinedOptions\<lparr>fetchLocation := Val False\<rparr>) demoDraw 0"
    "mount demoPlatform undefinedOptions demoDraw 0 =
      mount demoPlatform (undefinedOptions\<lparr>autoUpdateTime := Val False\<rparr>) demoDraw 0"
    by blast+
  from u c m [symmetric] show ?thesis
    by (simp only: mount_undefined_demo simp_thms)
qed

subsection \<open>The fields of the location\<close>

lemma json_or_string:
  "json_or (Some (JString s)) (JString d) = JString (or_else (Some s) d)"
  "json_or None (JString d) = JString (or_else None d)"
  by (simp_all add: json_or_def or_else_def)

lemma stringOrAbsent_cases:
  assumes "stringOrAbsent data key"
  shows "json_or (getProperty data key) (JString d) = JString (or_else (stringFields data key) d)"
  using assms
  by (auto simp: stringOrAbsent_def stringFields_def json_or_def or_else_def
      split: option.splits json.splits)

lemma fetchGeoLocation_json_value:
  assumes "data \<noteq> JNull"
  shows "fetchGeoLocation_json P (Answered status (Some data)) =
         (if \<not> response_ok status then None
          else Some \<lparr>cityValue = json_or (getProperty data ''city'') (JString ''Unknown''),
                     countryValue = json_or (getProperty data ''country_name'') (JString ''Unknown''),
                     countryCodeValue = json_or (getProperty data ''country_code'') (JString ''XX''),
                     regionValue = json_or (getProperty data ''region'') (JString []),
                     timezoneValue = json_or (getProperty data ''timezone'')
                                       (JString (systemTimeZone P))\<rparr>)"
  using assms by (cases data) (simp_all add: fetchGeoLocation_json_def)

lemma fetchGeoLocation_restricts:
  assumes "stringOrAbsent data ''city''" and "stringOrAbsent data ''country_name''"
    and "stringOrAbsent data ''country_code''" and "stringOrAbsent data ''region''"
    and "stringOrAbsent data ''timezone''" and "data \<noteq> JNull"
  shows "fetchGeoLocation_json P (Answered status (Some data)) =
         map_option locationObject
           (fetchGeoLocation P (HttpResponse status (JsonObject (stringFields data))))"
  by (simp add: fetchGeoLocation_json_value [OF assms(6)] fetchGeoLocation_def locationObject_def
      stringOrAbsent_cases [OF assms(1)] stringOrAbsent_cases [OF assms(2)]
      stringOrAbsent_cases [OF assms(3)] stringOrAbsent_cases [OF assms(4)]
      stringOrAbsent_cases [OF assms(5)])

lemma fetchGeoLocation_json_fails:
  "fetchGeoLocation_json P Rejected = None"
  "\<not> response_ok status \<Longrightarrow> fetchGeoLocation_json P (Answered status body) = None"
  "fetchGeoLocation_json P (Answered status None) = None"
  "fetchGeoLocation_json P (Answered status (Some JNull)) = None"
  by (simp_all add: fetchGeoLocation_json_def)

lemma field_or_json_or: "field_or v fallback (json_or v fallback)"
proof (cases v)
  case None
  then show ?thesis by (simp add: field_or_def json_or_def)
next
  case (Some x)
  then show ?thesis by (cases x) (auto simp: field_or_def json_or_def)
qed

text \<open>
  Claim C3 as stated fails. For a response with an empty \<open>city\<close>, the number 0 as
  \<open>country_code\<close> and neither \<open>region\<close> nor \<open>timezone\<close>, the produced \<open>city\<close> and
  \<open>countryCode\<close> are not the fields of the response although these are present, the
  produced region is the empty string and the produced time zone is the system time
  zone, not \<open>Unknown\<close>.
\<close>

theorem placeholder_counterexample:
  "fetchGeoLocation_json demoPlatform (Answered 200 (Some sparseResponse)) = Some sparseLocation \<and>
   getProperty sparseResponse ''city'' = Some (JString '''') \<and>
   cityValue sparseLocation \<noteq> JString '''' \<and>
   getProperty sparseResponse ''country_code'' = Some (JNumber 0) \<and>
   countryCodeValue sparseLocation \<noteq> JNumber 0 \<and>
   getProperty sparseResponse ''region'' = None \<and>
   regionValue sparseLocation \<noteq> JString ''Unknown'' \<and>
   getProperty sparseResponse ''timezone'' = None \<and>
   timezoneValue sparseLocation \<noteq> JString ''Unknown''"
  by (simp add: fetchGeoLocation_json_def response_ok_def json_or_def sparseResponse_def
      sparseLocation_def demoPlatform_def)

text \<open>
  Claim C3, amended. A response with a success status and a JSON body other than
  \<^verbatim>\<open>null\<close> always produces a location with all five fields. Each field is the field of
  the response when that is present and is not \<^verbatim>\<open>null\<close>, \<^verbatim>\<open>false\<close>, zero or the empty
  string; otherwise \<open>city\<close> and \<open>country\<close> are \<open>Unknown\<close>, \<open>countryCode\<close> is \<open>XX\<close>,
  \<open>region\<close> is the empty string and \<open>timezone\<close> is the system time zone.
\<close>

theorem location_fields:
  assumes "response_ok status" and "data \<noteq> JNull"
  shows "\<exists>l. fetchGeoLocation_json P (Answered status (Some data)) = Some l \<and>
             field_or (getProperty data ''city'') (JString ''Unknown'') (cityValue l) \<and>
             field_or (getProperty data ''country_name'') (JString ''Unknown'') (countryValue l) \<and>
             field_or (getProperty data ''country_code'') (JString ''XX'') (countryCodeValue l) \<and>
             field_or (getProperty data ''region'') (JString '''') (regionValue l) \<and>
             field_or (getProperty data ''timezone'') (JString (systemTimeZone P)) (timezoneValue l)"
  by (simp add: fetchGeoLocation_json_value [OF assms(2)] assms(1) field_or_json_or)

theorem location_fields_witness:
  "response_ok 200 \<and> sparseResponse \<noteq> JNull \<and>
   fetchGeoLocation_json demoPlatform (Answered 200 (Some sparseResponse)) = Some sparseLocation \<and>
   field_or (getProperty sparseResponse ''city'') (JString ''Unknown'') (cityValue sparseLocation) \<and>
   field_or (getProperty sparseResponse ''country_name'') (JString ''Unknown'')
     (countryValue sparseLocation) \<and>
   field_or (getProperty sparseResponse ''country_code'') (JString ''XX'')
     (countryCodeValue sparseLocation) \<and>
   field_or (getProperty sparseResponse ''region'') (JString '''') (regionValue sparseLocation) \<and>
   field_or (getProperty sparseResponse ''timezone'') (JString (systemTimeZone demoPlatform))
     (timezoneValue sparseLocation)"
proof -
  have a: "response_ok 200" "sparseResponse \<noteq> JNull"
    by (simp_all add: response_ok_def sparseResponse_def)
  have e: "fetchGeoLocation_json demoPlatform (Answered 200 (Some sparseResponse)) = Some sparseLocation"
    by (simp add: fetchGeoLocation_json_def response_ok_def json_or_def sparseResponse_def
        sparseLocation_def demoPlatform_def)
  from location_fields [OF a, of demoPlatform] a e show ?thesis by simp
qed

subsection \<open>The forms of a step\<close>

lemma step_Inr_cases [consumes 2, case_names quiet failed located tick]:
  assumes "step P options h ev = Inr h'" and "timer_ok P options h"
  obtains "info h' = info h" and "timer h' = timer h \<or> ev = Unmount"
  | res now where "ev = Settled res now" and "inFlight h" and "isMounted h = Some True"
      and "fetchGeoLocation P res = None"
      and "h' = setIsLoading False (setError None (setCurrentTime (localClock P now)
                  (h\<lparr>inFlight := False\<rparr>)))"
  | res now l where "ev = Settled res now" and "inFlight h" and "isMounted h = Some True"
      and "fetchGeoLocation P res = Some l"
      and "commit P (mergeConfig options) now h (stored P l now h) = Inr h'"
  | now iv where "ev = Tick now" and "timer h = Some iv"
      and "h' = setCurrentTime (zoneClock P (locationTimezone h) now) h"
proof (cases ev)
  case (Settled res now)
  show ?thesis
  proof (cases "inFlight h")
    case False
    with assms Settled have "h' = h" by (simp add: step_Settled_done)
    then show ?thesis using that(1) by simp
  next
    case True
    note fl = this
    show ?thesis
    proof (cases "isMounted h = Some True")
      case False
      with assms Settled fl have "h' = h\<lparr>inFlight := False\<rparr>"
        by (simp add: step_Settled_unmounted)
      then show ?thesis using that(1) by simp
    next
      case True
      show ?thesis
      proof (cases "fetchGeoLocation P res")
        case None
        with assms Settled fl True show ?thesis
          using that(2) by (simp add: step_Settled_failed)
      next
        case (Some l)
        with assms Settled fl True show ?thesis
          using that(3) by (simp add: step_Settled_located)
      qed
    qed
  qed
next
  case (Tick now)
  show ?thesis
  proof (cases "timer h")
    case None
    with assms Tick have "h' = h" by (simp add: step_Tick_idle)
    then show ?thesis using that(1) by simp
  next
    case (Some iv)
    with assms Tick show ?thesis
      using that(4) by (simp add: step_Tick_ok)
  qed
next
  case Unmount
  with assms have "h' = unmount h" by (simp add: step_Unmount)
  then show ?thesis using that(1) Unmount by (simp add: unmount_fields)
qed

lemma commit_stored:
  assumes "commit P config now h (stored P l now h) = Inr h'"
  shows "location (info h') = Some l" and "\<not> isLoading (info h')" and "\<not> inFlight h'"
    and "is_hms12 (currentTime (info h'))"
    and "zoneAccepted P (Some (timezone l)) \<Longrightarrow>
         currentTime (info h') = zoneClock P (Some (timezone l)) now"
    and "locationTimezone h' = Some (timezone l)"
    and "truthy (autoUpdateTime config) \<Longrightarrow> timer h \<noteq> None \<Longrightarrow> timer h' \<noteq> None"
proof -
  let ?s = "stored P l now h"
  have valid: "is_hms12 (currentTime (info ?s))"
    by (simp add: stored_currentTime is_hms12_zoneClock is_hms12_localClock)
  consider (same) "h' = ?s" | (off) "h' = timerCleanup ?s" "\<not> truthy (autoUpdateTime config)"
    | (rerun) "truthy (autoUpdateTime config)" "zoneAccepted P (Some (timezone l))"
        "h' = (setCurrentTime (zoneClock P (Some (timezone l)) now) (timerCleanup ?s))
                \<lparr>timer := Some \<lparr>delay = intervalDelay (timeUpdateInterval config),
                                 tz = Some (timezone l)\<rparr>\<rparr>"
  proof (cases "locationTimezone h = locationTimezone ?s")
    case True
    with assms have "h' = ?s" by (simp add: commit_def)
    then show ?thesis by (rule that(1))
  next
    case False
    with assms have te: "timerEffect P config now (timerCleanup ?s) = Inr h'"
      by (simp add: commit_def)
    show ?thesis
    proof (cases "truthy (autoUpdateTime config)")
      case False
      with te show ?thesis using that(2) by (simp add: timerEffect_off)
    next
      case True
      have lt: "locationTimezone (timerCleanup ?s) = Some (timezone l)"
        by (simp add: timerCleanup_def stored_fields)
      show ?thesis
      proof (cases "zoneAccepted P (Some (timezone l))")
        case False
        with te True lt show ?thesis by (simp add: timerEffect_rejected)
      next
        case acc: True
        then have "zoneAccepted P (locationTimezone (timerCleanup ?s))" by (simp add: lt)
        from timerEffect_accepted [OF True this, of now] te lt acc True show ?thesis
          using that(3) by simp
      qed
    qed
  qed
  then show "location (info h') = Some l" and "\<not> isLoading (info h')" and "\<not> inFlight h'"
    and "is_hms12 (currentTime (info h'))"
    and "zoneAccepted P (Some (timezone l)) \<Longrightarrow>
         currentTime (info h') = zoneClock P (Some (timezone l)) now"
    and "locationTimezone h' = Some (timezone l)"
    and "truthy (autoUpdateTime config) \<Longrightarrow> timer h \<noteq> None \<Longrightarrow> timer h' \<noteq> None"
    using valid
    by (cases; simp add: stored_fields stored_currentTime timerCleanup_def
        is_hms12_zoneClock)+
qed


subsection \<open>The time that is shown\<close>

lemma step_shown_ok:
  assumes "step P options h ev = Inr h'" and "timer_ok P options h" and "shown_ok h"
  shows "shown_ok h'"
  using assms(1,2)
proof (cases rule: step_Inr_cases)
  case quiet
  with assms(3) show ?thesis by (simp add: shown_ok_def)
next
  case (failed res now)
  then show ?thesis by (simp add: shown_ok_def is_hms12_localClock)
next
  case (located res now l)
  from commit_stored(4) [OF located(5)] show ?thesis by (simp add: shown_ok_def)
next
  case (tick now iv)
  with assms(2) have "zoneAccepted P (locationTimezone h)" by (simp add: timer_ok_def)
  with tick show ?thesis by (simp add: shown_ok_def is_hms12_zoneClock)
qed

lemma run_shown_ok:
  "run P options h evs = Inr h' \<Longrightarrow> timer_ok P options h \<Longrightarrow> shown_ok h \<Longrightarrow> shown_ok h'"
proof (induction evs arbitrary: h)
  case Nil
  then show ?case by simp
next
  case (Cons ev evs)
  then obtain h1 where s: "step P options h ev = Inr h1" and r: "run P options h1 evs = Inr h'"
    by (auto split: sum.splits)
  from Cons.IH [OF r step_timer_ok [OF Cons.prems(2) s] step_shown_ok [OF s Cons.prems(2,3)]]
  show ?case .
qed

lemma step_local:
  assumes "step P options h ev = Inr h'" and "timer_ok P options h"
    and "location (info h') = None"
  shows "location (info h) = None \<and>
         (currentTime (info h') = currentTime (info h) \<or>
          (\<exists>t\<in>set (instants [ev]). currentTime (info h') = localClock P t))"
  using assms(1,2)
proof (cases rule: step_Inr_cases)
  case quiet
  with assms(3) show ?thesis by simp
next
  case (failed res now)
  with assms(3) show ?thesis by simp
next
  case (located res now l)
  from commit_stored(1) [OF located(5)] assms(3) show ?thesis by simp
next
  case (tick now iv)
  with assms(3) have n: "location (info h) = None" by simp
  then have "locationTimezone h = None" by (simp add: locationTimezone_def)
  with tick n show ?thesis by (simp add: zoneClock_None)
qed

lemma run_local_location:
  "run P options h evs = Inr h' \<Longrightarrow> timer_ok P options h \<Longrightarrow> location (info h') = None \<Longrightarrow>
   location (info h) = None"
proof (induction evs arbitrary: h)
  case Nil
  then show ?case by simp
next
  case (Cons ev evs)
  then obtain h1 where s: "step P options h ev = Inr h1" and r: "run P options h1 evs = Inr h'"
    by (auto split: sum.splits)
  from Cons.IH [OF r step_timer_ok [OF Cons.prems(2) s] Cons.prems(3)]
  have "location (info h1) = None" .
  from step_local [OF s Cons.prems(2) this] show ?case by blast
qed

lemma run_local:
  "run P options h evs = Inr h' \<Longrightarrow> timer_ok P options h \<Longrightarrow> location (info h') = None \<Longrightarrow>
   currentTime (info h') = currentTime (info h) \<or>
   (\<exists>t\<in>set (instants evs). currentTime (info h') = localClock P t)"
proof (induction evs arbitrary: h)
  case Nil
  then show ?case by simp
next
  case (Cons ev evs)
  then obtain h1 where s: "step P options h ev = Inr h1" and r: "run P options h1 evs = Inr h'"
    by (auto split: sum.splits)
  note ok1 = step_timer_ok [OF Cons.prems(2) s]
  from Cons.IH [OF r ok1 Cons.prems(3)]
  have tail: "currentTime (info h') = currentTime (info h1) \<or>
      (\<exists>t\<in>set (instants evs). currentTime (info h') = localClock P t)" .
  have "location (info h1) = None"
    using run_local_location r ok1 Cons.prems(3) by blast
  from step_local [OF s Cons.prems(2) this]
  have head: "currentTime (info h1) = currentTime (info h) \<or>
      (\<exists>t\<in>set (instants [ev]). currentTime (info h1) = localClock P t)" by blast
  have i: "set (instants (ev # evs)) = set (instants [ev]) \<union> set (instants evs)"
    by (cases ev) simp_all
  from tail head show ?case unfolding i by auto
qed


lemma mount_cases:
  assumes "mount P options r t0 = Inr h0"
  shows "location (info h0) = None"
    and "truthy (autoUpdateTime (mergeConfig options)) \<Longrightarrow>
         currentTime (info h0) = localClock P t0 \<and> timer h0 \<noteq> None"
    and "\<not> truthy (autoUpdateTime (mergeConfig options)) \<Longrightarrow>
         currentTime (info h0) = [] \<and> timer h0 = None"
    and "truthy (fetchLocation (mergeConfig options)) \<Longrightarrow> isLoading (info h0)"
    and "\<not> truthy (fetchLocation (mergeConfig options)) \<Longrightarrow> \<not> inFlight h0"
proof -
  let ?i = "\<lparr>info = \<lparr>visitorCount = generateVisitorCount r, location = None,
                     currentTime = [], isLoading = True, error = None\<rparr>,
             isMounted = None, inFlight = False, timer = None\<rparr>"
  let ?g = "geolocationEffect (mergeConfig options) ?i"
  from assms have t: "timerEffect P (mergeConfig options) t0 ?g = Inr h0"
    by (simp add: mount_eq)
  have lt: "locationTimezone ?g = None"
    by (simp add: geolocationEffect_frame locationTimezone_def)
  show "location (info h0) = None"
    by (simp add: timerEffect_frame(2) [OF t] geolocationEffect_frame)
  show "isLoading (info h0)" if "truthy (fetchLocation (mergeConfig options))"
    using that by (simp add: timerEffect_frame(3) [OF t] geolocationEffect_def)
  show "\<not> inFlight h0" if "\<not> truthy (fetchLocation (mergeConfig options))"
    using that by (simp add: timerEffect_frame(5) [OF t] geolocationEffect_def)
  show "currentTime (info h0) = [] \<and> timer h0 = None"
    if "\<not> truthy (autoUpdateTime (mergeConfig options))"
    using that t by (auto simp: timerEffect_off geolocationEffect_frame)
  show "currentTime (info h0) = localClock P t0 \<and> timer h0 \<noteq> None"
    if a: "truthy (autoUpdateTime (mergeConfig options))"
  proof -
    have "zoneAccepted P (locationTimezone ?g)" by (simp add: lt zoneAccepted_None)
    from timerEffect_accepted [OF a this, of t0] t lt show ?thesis
      by (auto simp: zoneClock_None)
  qed
qed

lemma mount_shown_ok:
  assumes "mount P options r t0 = Inr h0"
    and "truthy (fetchLocation (mergeConfig options)) \<or> truthy (autoUpdateTime (mergeConfig options))"
  shows "shown_ok h0"
  using assms(2) mount_cases(2,4) [OF assms(1)]
  by (auto simp: shown_ok_def is_hms12_localClock)

lemma step_idle:
  assumes "\<not> inFlight h" and "timer h = None"
  shows "\<exists>h'. step P options h ev = Inr h' \<and> info h' = info h \<and> \<not> inFlight h' \<and> timer h' = None"
proof (cases ev)
  case (Settled res now)
  with assms show ?thesis by (simp add: step_Settled_done)
next
  case (Tick now)
  with assms show ?thesis by (simp add: step_Tick_idle)
next
  case Unmount
  with assms show ?thesis by (simp add: step_Unmount unmount_fields)
qed

lemma run_idle:
  "\<not> inFlight h \<Longrightarrow> timer h = None \<Longrightarrow> \<exists>h'. run P options h evs = Inr h' \<and> info h' = info h"
proof (induction evs arbitrary: h)
  case Nil
  then show ?case by simp
next
  case (Cons ev evs)
  from step_idle [OF Cons.prems, of P options ev]
  obtain h1 where s: "step P options h ev = Inr h1" "info h1 = info h" "\<not> inFlight h1"
      "timer h1 = None"
    by blast
  from Cons.IH [OF s(3,4)] s(1,2) show ?case by simp
qed

text \<open>
  Claim C4 as stated fails: with the lookup and the timer both switched off the mount
  leaves \<open>isLoading\<close> false and \<open>currentTime\<close> the empty string.
\<close>

theorem empty_time_counterexample:
  "mount demoPlatform bothOffOptions demoDraw 0 = Inr bothOffHook \<and>
   \<not> isLoading (info bothOffHook) \<and> currentTime (info bothOffHook) = [] \<and>
   \<not> is_hms12 (currentTime (info bothOffHook))"
  by (simp add: mount_def config_eval bothOffOptions_def geolocationEffect_def
      timerEffect_off setters generateVisitorCount_demo bothOffHook_def)

text \<open>
  Claim C4, amended. In an activation with \<open>fetchLocation\<close> or \<open>autoUpdateTime\<close> on,
  whenever \<open>isLoading\<close> is false the time shown is a valid 12-hour time string, not the
  empty string, and as long as no location is stored it is the local time of the mount
  or of one of the events. With both options off the time shown stays the empty string.
\<close>

theorem time_shown_after_loading:
  assumes "mount P options r t0 = Inr h0" and "run P options h0 evs = Inr h"
  shows "(truthy (fetchLocation (mergeConfig options)) \<or>
          truthy (autoUpdateTime (mergeConfig options)) \<longrightarrow>
          \<not> isLoading (info h) \<longrightarrow>
            is_hms12 (currentTime (info h)) \<and> currentTime (info h) \<noteq> [] \<and>
            (location (info h) = None \<longrightarrow>
               (\<exists>t\<in>set (t0 # instants evs). currentTime (info h) = localClock P t))) \<and>
         (\<not> truthy (fetchLocation (mergeConfig options)) \<and>
          \<not> truthy (autoUpdateTime (mergeConfig options)) \<longrightarrow>
          currentTime (info h) = [])"
proof (intro conjI impI)
  assume on: "truthy (fetchLocation (mergeConfig options)) \<or>
      truthy (autoUpdateTime (mergeConfig options))"
    and loaded: "\<not> isLoading (info h)"
  note ok0 = mount_timer_ok [OF assms(1)]
  from run_shown_ok [OF assms(2) ok0 mount_shown_ok [OF assms(1) on]] loaded
  show valid: "is_hms12 (currentTime (info h))" by (simp add: shown_ok_def)
  then show nonempty: "currentTime (info h) \<noteq> []" by (rule is_hms12_nonempty)
  show "\<exists>t\<in>set (t0 # instants evs). currentTime (info h) = localClock P t"
    if none: "location (info h) = None"
  proof -
    from run_local [OF assms(2) ok0 none]
    consider "currentTime (info h) = currentTime (info h0)"
      | "\<exists>t\<in>set (instants evs). currentTime (info h) = localClock P t"
      by blast
    then show ?thesis
    proof cases
      case 1
      with nonempty mount_cases(2,3) [OF assms(1)] show ?thesis
        by (cases "truthy (autoUpdateTime (mergeConfig options))") auto
    next
      case 2
      then show ?thesis by auto
    qed
  qed
next
  assume off: "\<not> truthy (fetchLocation (mergeConfig options)) \<and>
      \<not> truthy (autoUpdateTime (mergeConfig options))"
  with mount_cases(3,5) [OF assms(1)]
  have "currentTime (info h0) = []" "timer h0 = None" "\<not> inFlight h0" by simp_all
  with run_idle [OF this(3,2), of P options evs] assms(2)
  show "currentTime (info h) = []" by auto
qed

lemma run_demo_failed:
  "run demoPlatform noOptions demoHook [Settled NetworkFailure 5000] = Inr demoFailedHook"
  by (simp add: step_demo_failed)

lemma mount_bothOff_demo: "mount demoPlatform bothOffOptions demoDraw 0 = Inr bothOffHook"
  by (simp add: mount_def config_eval bothOffOptions_def geolocationEffect_def
      timerEffect_off setters generateVisitorCount_demo bothOffHook_def)

lemma run_bothOff_demo: "run demoPlatform bothOffOptions bothOffHook [Tick 1000] = Inr bothOffHook"
  by (simp add: step_Tick_idle bothOffHook_def)

theorem time_shown_after_loading_witness:
  "mount demoPlatform noOptions demoDraw 0 = Inr demoHook \<and>
   run demoPlatform noOptions demoHook [Settled NetworkFailure 5000] = Inr demoFailedHook \<and>
   truthy (fetchLocation (mergeConfig noOptions)) \<and> \<not> isLoading (info demoFailedHook) \<and>
   location (info demoFailedHook) = None \<and>
   is_hms12 (currentTime (info demoFailedHook)) \<and> currentTime (info demoFailedHook) \<noteq> [] \<and>
   (\<exists>t\<in>set (0 # instants [Settled NetworkFailure 5000]).
      currentTime (info demoFailedHook) = localClock demoPlatform t) \<and>
   mount demoPlatform bothOffOptions demoDraw 0 = Inr bothOffHook \<and>
   run demoPlatform bothOffOptions bothOffHook [Tick 1000] = Inr bothOffHook \<and>
   \<not> truthy (fetchLocation (mergeConfig bothOffOptions)) \<and>
   \<not> truthy (autoUpdateTime (mergeConfig bothOffOptions)) \<and>
   currentTime (info bothOffHook) = []"
proof -
  have a: "truthy (fetchLocation (mergeConfig noOptions))" "\<not> isLoading (info demoFailedHook)"
    "location (info demoFailedHook) = None"
    by (simp_all add: config_eval noOptions_def demoFailedHook_def)
  have b: "\<not> truthy (fetchLocation (mergeConfig bothOffOptions))"
    "\<not> truthy (autoUpdateTime (mergeConfig bothOffOptions))"
    by (simp_all add: config_eval bothOffOptions_def)
  from time_shown_after_loading [OF mount_demo run_demo_failed]
    time_shown_after_loading [OF mount_bothOff_demo run_bothOff_demo]
    a b mount_demo run_demo_failed mount_bothOff_demo run_bothOff_demo
  show ?thesis by blast
qed

subsection \<open>The timer\<close>

lemma step_ticking:
  assumes "step P options h ev = Inr h'" and "timer_ok P options h"
    and "truthy (autoUpdateTime (mergeConfig options))" and "timer h \<noteq> None"
    and "ev \<noteq> Unmount"
  shows "timer h' \<noteq> None"
  using assms(1,2)
proof (cases rule: step_Inr_cases)
  case quiet
  with assms(4,5) show ?thesis by auto
next
  case (failed res now)
  with assms(4) show ?thesis by simp
next
  case (located res now l)
  from commit_stored(7) [OF located(5) assms(3,4)] show ?thesis .
next
  case (tick now iv)
  then show ?thesis by simp
qed

lemma run_ticking:
  "run P options h evs = Inr h' \<Longrightarrow> timer_ok P options h \<Longrightarrow>
   truthy (autoUpdateTime (mergeConfig options)) \<Longrightarrow> timer h \<noteq> None \<Longrightarrow>
   Unmount \<notin> set evs \<Longrightarrow> timer h' \<noteq> None"
proof (induction evs arbitrary: h)
  case Nil
  then show ?case by simp
next
  case (Cons ev evs)
  then obtain h1 where s: "step P options h ev = Inr h1" and r: "run P options h1 evs = Inr h'"
    by (auto split: sum.splits)
  from Cons.prems(5) have ne: "ev \<noteq> Unmount" and rest: "Unmount \<notin> set evs" by auto
  from Cons.IH [OF r step_timer_ok [OF Cons.prems(2) s] Cons.prems(3)
      step_ticking [OF s Cons.prems(2,3,4) ne] rest]
  show ?case .
qed

lemma zoneClock_known:
  assumes "zoneAccepted P (Some z)" and "z \<noteq> []"
  shows "\<exists>off. zoneOffset P z = Some off \<and> zoneClock P (Some z) now = clock12 (wallSeconds off now)"
  using assms by (auto simp: zoneAccepted_def zoneClock_def)

text \<open>
  Claim C7. In an activation with \<open>autoUpdateTime\<close> on that has not been unmounted, an
  interval is registered with the configured delay (1000 when the option is missing);
  its closure holds the time zone of the current location, if any. A tick at \<open>now\<close>
  does not throw and sets \<open>currentTime\<close> to \<open>formatTime\<close> of that time zone at \<open>now\<close>: a
  valid 12-hour \<open>hh:mm:ss\<close> string, of the local zone when there is no location and of
  the zone of the location otherwise.
\<close>

theorem tick_formats_known_zone:
  assumes "truthy (autoUpdateTime (mergeConfig options))"
    and "mount P options r t0 = Inr h0" and "run P options h0 evs = Inr h"
    and "Unmount \<notin> set evs"
  shows "timer h = Some \<lparr>delay = intervalDelay (timeUpdateInterval (mergeConfig options)),
                          tz = map_option timezone (location (info h))\<rparr> \<and>
         (timeUpdateInterval options = Missing \<longrightarrow>
            intervalDelay (timeUpdateInterval (mergeConfig options)) = 1000) \<and>
         (\<forall>n. timeUpdateInterval options = Val n \<longrightarrow>
            intervalDelay (timeUpdateInterval (mergeConfig options)) = n) \<and>
         (\<exists>s. formatTime P (map_option timezone (location (info h))) now = Inr s \<and>
              is_hms12 s \<and>
              step P options h (Tick now) = Inr (setCurrentTime s h) \<and>
              (location (info h) = None \<longrightarrow> s = localClock P now) \<and>
              (\<forall>l. location (info h) = Some l \<longrightarrow> timezone l \<noteq> [] \<longrightarrow>
                  (\<exists>off. zoneOffset P (timezone l) = Some off \<and>
                         s = clock12 (wallSeconds off now))))"
proof -
  note ok0 = mount_timer_ok [OF assms(2)]
  note ok = run_timer_ok [OF ok0 assms(3)]
  from mount_cases(2) [OF assms(2) assms(1)] have "timer h0 \<noteq> None" by simp
  from run_ticking [OF assms(3) ok0 assms(1) this assms(4)]
  obtain iv where iv: "timer h = Some iv" by auto
  with ok have t: "iv = \<lparr>delay = intervalDelay (timeUpdateInterval (mergeConfig options)),
      tz = locationTimezone h\<rparr>" and acc: "zoneAccepted P (locationTimezone h)"
    by (simp_all add: timer_ok_def)
  let ?s = "zoneClock P (locationTimezone h) now"
  have 1: "timer h = Some \<lparr>delay = intervalDelay (timeUpdateInterval (mergeConfig options)),
      tz = map_option timezone (location (info h))\<rparr>"
    using iv t by (simp add: locationTimezone_def)
  have 2: "timeUpdateInterval options = Missing \<longrightarrow>
      intervalDelay (timeUpdateInterval (mergeConfig options)) = 1000"
    by (simp add: config_eval)
  have 3: "\<forall>n. timeUpdateInterval options = Val n \<longrightarrow>
      intervalDelay (timeUpdateInterval (mergeConfig options)) = n"
    by (simp add: config_eval)
  have f: "formatTime P (map_option timezone (location (info h))) now = Inr ?s"
    using formatTime_accepted [OF acc] by (simp add: locationTimezone_def)
  have v: "is_hms12 ?s" by (rule is_hms12_zoneClock [OF acc])
  have st: "step P options h (Tick now) = Inr (setCurrentTime ?s h)"
    by (rule step_Tick_ok [OF iv ok])
  have loc: "location (info h) = None \<longrightarrow> ?s = localClock P now"
    by (simp add: locationTimezone_def zoneClock_None)
  have zone: "\<forall>l. location (info h) = Some l \<longrightarrow> timezone l \<noteq> [] \<longrightarrow>
      (\<exists>off. zoneOffset P (timezone l) = Some off \<and> ?s = clock12 (wallSeconds off now))"
  proof (intro allI impI)
    fix l
    assume l: "location (info h) = Some l" and ne: "timezone l \<noteq> []"
    then have lt: "locationTimezone h = Some (timezone l)" by (simp add: locationTimezone_def)
    with acc have "zoneAccepted P (Some (timezone l))" by simp
    from zoneClock_known [OF this ne, of now] lt
    show "\<exists>off. zoneOffset P (timezone l) = Some off \<and> ?s = clock12 (wallSeconds off now)"
      by simp
  qed
  have 4: "\<exists>s. formatTime P (map_option timezone (location (info h))) now = Inr s \<and>
              is_hms12 s \<and>
              step P options h (Tick now) = Inr (setCurrentTime s h) \<and>
              (location (info h) = None \<longrightarrow> s = localClock P now) \<and>
              (\<forall>l. location (info h) = Some l \<longrightarrow> timezone l \<noteq> [] \<longrightarrow>
                  (\<exists>off. zoneOffset P (timezone l) = Some off \<and>
                         s = clock12 (wallSeconds off now)))"
    by (rule exI [of _ ?s]) (intro conjI f v st loc zone)
  from 1 2 3 4 show ?thesis by (intro conjI)
qed


lemma formatTime_paris_demo:
  "formatTime demoPlatform (Some ''Europe/Paris'') 7000 = Inr ''01:00:07 AM''"
  by (simp add: formatTime_def DateTimeFormat_format_def demoPlatform_def clock_eval)

theorem tick_formats_known_zone_witness:
  "truthy (autoUpdateTime (mergeConfig noOptions)) \<and>
   mount demoPlatform noOptions demoDraw 0 = Inr demoHook \<and>
   run demoPlatform noOptions demoHook
     [Settled (HttpResponse 200 (JsonObject parisResponse)) 5000, Tick 6000] = Inr demoParisHook \<and>
   Unmount \<notin> set [Settled (HttpResponse 200 (JsonObject parisResponse)) 5000, Tick 6000] \<and>
   timer demoParisHook = Some \<lparr>delay = 1000, tz = Some ''Europe/Paris''\<rparr> \<and>
   step demoPlatform noOptions demoParisHook (Tick 7000) =
     Inr (setCurrentTime ''01:00:07 AM'' demoParisHook) \<and>
   is_hms12 ''01:00:07 AM''"
proof -
  have a: "truthy (autoUpdateTime (mergeConfig noOptions))"
    by (simp add: config_eval noOptions_def)
  have u: "Unmount \<notin> set [Settled (HttpResponse 200 (JsonObject parisResponse)) 5000, Tick 6000]"
    by simp
  have l: "map_option timezone (location (info demoParisHook)) = Some ''Europe/Paris''"
    by (simp add: demoParisHook_def parisLocation_def)
  from tick_formats_known_zone [OF a mount_demo run_demo_paris u, of 7000]
  obtain s where s: "formatTime demoPlatform (Some ''Europe/Paris'') 7000 = Inr s" "is_hms12 s"
      "step demoPlatform noOptions demoParisHook (Tick 7000) = Inr (setCurrentTime s demoParisHook)"
    unfolding l by blast
  from s(1) have "s = ''01:00:07 AM''" by (simp add: formatTime_paris_demo)
  with s a u mount_demo run_demo_paris show ?thesis
    by (simp add: demoParisHook_def)
qed

subsection \<open>The Paris scenario\<close>

lemma commit_stored_succeeds:
  assumes "zoneAccepted P (Some (timezone l))"
  shows "\<exists>h'. commit P config now h (stored P l now h) = Inr h'"
proof (cases "locationTimezone h = locationTimezone (stored P l now h)")
  case True
  then show ?thesis by (simp add: commit_def)
next
  case False
  have lt: "locationTimezone (timerCleanup (stored P l now h)) = Some (timezone l)"
    by (simp add: timerCleanup_def stored_fields)
  show ?thesis
  proof (cases "truthy (autoUpdateTime config)")
    case off: False
    with False show ?thesis by (simp add: commit_def timerEffect_off)
  next
    case True
    from assms have "zoneAccepted P (locationTimezone (timerCleanup (stored P l now h)))"
      by (simp add: lt)
    from timerEffect_accepted [OF True this, of now] False show ?thesis
      by (simp add: commit_def)
  qed
qed

lemma step_settled:
  assumes "\<not> inFlight h" and "timer_ok P options h"
  shows "\<exists>h'. step P options h ev = Inr h' \<and> \<not> inFlight h' \<and> timer_ok P options h' \<and>
              location (info h') = location (info h) \<and>
              (currentTime (info h') = currentTime (info h) \<or>
               (\<exists>t\<in>set (instants [ev]).
                  currentTime (info h') = zoneClock P (locationTimezone h) t))"
proof -
  from step_no_lookup [OF assms, of ev]
  obtain h' where s: "step P options h ev = Inr h'" "\<not> inFlight h'"
      "location (info h') = location (info h)" "timer_ok P options h'"
    by blast
  from s(1) assms(2)
  have "currentTime (info h') = currentTime (info h) \<or>
        (\<exists>t\<in>set (instants [ev]). currentTime (info h') = zoneClock P (locationTimezone h) t)"
  proof (cases rule: step_Inr_cases)
    case quiet
    then show ?thesis by simp
  next
    case (failed res now)
    with assms(1) show ?thesis by simp
  next
    case (located res now l)
    with assms(1) show ?thesis by simp
  next
    case (tick now iv)
    then show ?thesis by simp
  qed
  with s show ?thesis by blast
qed

lemma run_settled:
  "\<not> inFlight h \<Longrightarrow> timer_ok P options h \<Longrightarrow>
   \<exists>h'. run P options h evs = Inr h' \<and> location (info h') = location (info h) \<and>
        (currentTime (info h') = currentTime (info h) \<or>
         (\<exists>t\<in>set (instants evs). currentTime (info h') = zoneClock P (locationTimezone h) t))"
proof (induction evs arbitrary: h)
  case Nil
  then show ?case by simp
next
  case (Cons ev evs)
  from step_settled [OF Cons.prems, of ev]
  obtain h1 where s: "step P options h ev = Inr h1" "\<not> inFlight h1" "timer_ok P options h1"
      "location (info h1) = location (info h)"
      "currentTime (info h1) = currentTime (info h) \<or>
       (\<exists>t\<in>set (instants [ev]). currentTime (info h1) = zoneClock P (locationTimezone h) t)"
    by blast
  from s(4) have lt: "locationTimezone h1 = locationTimezone h" by (simp add: locationTimezone_def)
  from Cons.IH [OF s(2,3)]
  obtain h' where r: "run P options h1 evs = Inr h'" "location (info h') = location (info h1)"
      "currentTime (info h') = currentTime (info h1) \<or>
       (\<exists>t\<in>set (instants evs). currentTime (info h') = zoneClock P (locationTimezone h) t)"
    unfolding lt by blast
  have i: "set (instants (ev # evs)) = set (instants [ev]) \<union> set (instants evs)"
    by (cases ev) simp_all
  have "currentTime (info h') = currentTime (info h) \<or>
        (\<exists>t\<in>set (instants (ev # evs)). currentTime (info h') = zoneClock P (locationTimezone h) t)"
    using s(5) r(3) unfolding i by auto
  with s(1,4) r(1,2) show ?case by simp
qed

lemma fetchGeoLocation_parisResponse:
  "response_ok status \<Longrightarrow>
   fetchGeoLocation P (HttpResponse status (JsonObject parisResponse)) = Some parisLocation"
  by (simp add: fetchGeoLocation_def or_else_def parisResponse_def parisLocation_def)

text \<open>
  Claim C6. In any activation whose lookup is in flight and whose component is mounted,
  in a browser that knows Europe/Paris (with offset \<open>off\<close>), the Paris response with a
  success status settles without an exception; the location is exactly the Paris
  location and \<open>currentTime\<close> is the Paris time of the instant. After any further events
  no step throws, the location is unchanged and \<open>currentTime\<close> is the Paris time of the
  settling or of one of those events.
\<close>

theorem paris_scenario:
  assumes "mount P options r t0 = Inr h0" and "run P options h0 evs = Inr h"
    and "inFlight h" and "isMounted h = Some True"
    and "response_ok status" and "zoneOffset P ''Europe/Paris'' = Some off"
  shows "\<exists>h1. step P options h (Settled (HttpResponse status (JsonObject parisResponse)) now) = Inr h1 \<and>
              location (info h1) = Some parisLocation \<and>
              currentTime (info h1) = clock12 (wallSeconds off now) \<and>
              (\<forall>evs'. \<exists>h2. run P options h1 evs' = Inr h2 \<and>
                   location (info h2) = Some parisLocation \<and>
                   (\<exists>t\<in>set (now # instants evs').
                      currentTime (info h2) = clock12 (wallSeconds off t)))"
proof -
  let ?res = "HttpResponse status (JsonObject parisResponse)"
  have tzp: "timezone parisLocation = ''Europe/Paris''" by (simp add: parisLocation_def)
  have acc: "zoneAccepted P (Some (timezone parisLocation))"
    using assms(6) by (simp add: tzp zoneAccepted_def)
  have clock: "zoneClock P (Some (timezone parisLocation)) t = clock12 (wallSeconds off t)" for t
    using assms(6) by (simp add: tzp zoneClock_def)
  note geo = fetchGeoLocation_parisResponse [OF assms(5), of P]
  from commit_stored_succeeds [OF acc]
  obtain h1 where c: "commit P (mergeConfig options) now h (stored P parisLocation now h) = Inr h1"
    by blast
  then have st: "step P options h (Settled ?res now) = Inr h1"
    by (simp add: step_Settled_located [OF assms(3,4) geo])
  note ok = run_timer_ok [OF mount_timer_ok [OF assms(1)] assms(2)]
  note ok1 = step_timer_ok [OF ok st]
  note f = commit_stored [OF c]
  have loc1: "location (info h1) = Some parisLocation" by (rule f(1))
  have time1: "currentTime (info h1) = clock12 (wallSeconds off now)"
    using f(5) [OF acc] by (simp add: clock)
  have lt1: "locationTimezone h1 = Some (timezone parisLocation)" by (rule f(6))
  have later: "\<exists>h2. run P options h1 evs' = Inr h2 \<and> location (info h2) = Some parisLocation \<and>
      (\<exists>t\<in>set (now # instants evs'). currentTime (info h2) = clock12 (wallSeconds off t))" for evs'
  proof -
    from run_settled [OF f(3) ok1, of evs']
    obtain h2 where r: "run P options h1 evs' = Inr h2" "location (info h2) = location (info h1)"
        "currentTime (info h2) = currentTime (info h1) \<or>
         (\<exists>t\<in>set (instants evs'). currentTime (info h2) = clock12 (wallSeconds off t))"
      unfolding lt1 clock by blast
    from r(3) time1
    have "\<exists>t\<in>set (now # instants evs'). currentTime (info h2) = clock12 (wallSeconds off t)"
      by auto
    with r(1,2) loc1 show ?thesis by simp
  qed
  show ?thesis
    by (rule exI [of _ h1]) (intro conjI allI st loc1 time1 later)
qed

theorem paris_scenario_witness:
  "mount demoPlatform noOptions demoDraw 0 = Inr demoHook \<and>
   run demoPlatform noOptions demoHook [] = Inr demoHook \<and>
   inFlight demoHook \<and> isMounted demoHook = Some True \<and> response_ok 200 \<and>
   zoneOffset demoPlatform ''Europe/Paris'' = Some 3600 \<and>
   run demoPlatform noOptions demoHook
     [Settled (HttpResponse 200 (JsonObject parisResponse)) 5000, Tick 6000] = Inr demoParisHook \<and>
   location (info demoParisHook) = Some parisLocation \<and>
   currentTime (info demoParisHook) = clock12 (wallSeconds 3600 6000) \<and>
   (\<exists>h1. step demoPlatform noOptions demoHook
            (Settled (HttpResponse 200 (JsonObject parisResponse)) 5000) = Inr h1 \<and>
         location (info h1) = Some parisLocation \<and>
         currentTime (info h1) = clock12 (wallSeconds 3600 5000))"
proof -
  have a: "run demoPlatform noOptions demoHook [] = Inr demoHook" "inFlight demoHook"
    "isMounted demoHook = Some True" "response_ok 200"
    "zoneOffset demoPlatform ''Europe/Paris'' = Some 3600"
    by (simp_all add: demoHook_def response_ok_def zoneOffset_def demoPlatform_def)
  have b: "location (info demoParisHook) = Some parisLocation"
    "currentTime (info demoParisHook) = clock12 (wallSeconds 3600 6000)"
    by (simp_all add: demoParisHook_def clock_eval)
  from paris_scenario [OF mount_demo a, of 5000]
  have "\<exists>h1. step demoPlatform noOptions demoHook
            (Settled (HttpResponse 200 (JsonObject parisResponse)) 5000) = Inr h1 \<and>
         location (info h1) = Some parisLocation \<and>
         currentTime (info h1) = clock12 (wallSeconds 3600 5000)"
    by blast
  with a b mount_demo run_demo_paris show ?thesis by (intro conjI)
qed

end
